theory Spec2Isabelle
  imports Main
begin

section \<open>Streaming information helpers (streaming\_info.cpp)\<close>

text \<open>
  The two conversion helpers of namespace \<open>tdma\<close> are pure. Exceptions are values of
  \<open>api_error\<close>; a function that may throw returns \<open>api_error + 'a\<close>.
\<close>

datatype api_error =
    APIException string
  | ValueException string
  | std_invalid_argument
  | std_out_of_range

subsection \<open>StreamerService(string)\<close>

text \<open>The enumerators the constructor assigns; the two FOREX lines are commented out in the source.\<close>

datatype service_type =
    NONE | ADMIN | ACTIVES_NASDAQ | ACTIVES_NYSE | ACTIVES_OTCBB | ACTIVES_OPTIONS
  | CHART_EQUITY | CHART_FUTURES | CHART_OPTIONS | QUOTE
  | LEVELONE_FUTURES | LEVELONE_FOREX | LEVELONE_FUTURES_OPTIONS | OPTION
  | NEWS_HEADLINE | TIMESALE_EQUITY | TIMESALE_FUTURES | TIMESALE_OPTIONS

definition StreamerService :: "string \<Rightarrow> api_error + service_type" where
  "StreamerService service_name =
    (if service_name = ''NONE'' then Inr NONE
     else if service_name = ''ADMIN'' then Inr ADMIN
     else if service_name = ''ACTIVES_NASDAQ'' then Inr ACTIVES_NASDAQ
     else if service_name = ''ACTIVES_NYSE'' then Inr ACTIVES_NYSE
     else if service_name = ''ACTIVES_OTCBB'' then Inr ACTIVES_OTCBB
     else if service_name = ''ACTIVES_OPTIONS'' then Inr ACTIVES_OPTIONS
     else if service_name = ''CHART_EQUITY'' then Inr CHART_EQUITY
     else if service_name = ''CHART_FUTURES'' then Inr CHART_FUTURES
     else if service_name = ''CHART_OPTIONS'' then Inr CHART_OPTIONS
     else if service_name = ''QUOTE'' then Inr QUOTE
     else if service_name = ''LEVELONE_FUTURES'' then Inr LEVELONE_FUTURES
     else if service_name = ''LEVELONE_FOREX'' then Inr LEVELONE_FOREX
     else if service_name = ''LEVELONE_FUTURES_OPTIONS'' then Inr LEVELONE_FUTURES_OPTIONS
     else if service_name = ''OPTION'' then Inr OPTION
     else if service_name = ''NEWS_HEADLINE'' then Inr NEWS_HEADLINE
     else if service_name = ''TIMESALE_EQUITY'' then Inr TIMESALE_EQUITY
     else if service_name = ''TIMESALE_FUTURES'' then Inr TIMESALE_FUTURES
     else if service_name = ''TIMESALE_OPTIONS'' then Inr TIMESALE_OPTIONS
     else Inl (ValueException (''invalid service name: '' @ service_name)))"

text \<open>The eighteen literals of the claim, as a list (the reading of the claim, not of the code).\<close>

definition accepted_service_names :: "string list" where
  "accepted_service_names =
    [''NONE'', ''ADMIN'', ''ACTIVES_NASDAQ'', ''ACTIVES_NYSE'', ''ACTIVES_OTCBB'',
     ''ACTIVES_OPTIONS'', ''CHART_EQUITY'', ''CHART_FUTURES'', ''CHART_OPTIONS'', ''QUOTE'',
     ''LEVELONE_FUTURES'', ''LEVELONE_FOREX'', ''LEVELONE_FUTURES_OPTIONS'', ''OPTION'',
     ''NEWS_HEADLINE'', ''TIMESALE_EQUITY'', ''TIMESALE_FUTURES'', ''TIMESALE_OPTIONS'']"

subsection \<open>timestamp\_to\_ms\<close>

text \<open>
  \<open>std::stoi\<close> (through \<open>strtol\<close>, base 10): skips leading white space, reads an optional
  sign and then the longest run of decimal digits; anything after the digits is ignored.
  Without a digit it throws \<open>std::invalid_argument\<close>; a value outside \<open>int\<close> throws
  \<open>std::out_of_range\<close>. The C string ends at the first NUL character.
\<close>

definition c_str :: "string \<Rightarrow> string" where
  "c_str s = takeWhile (\<lambda>c. c \<noteq> CHR 0x00) s"

definition isspace :: "char \<Rightarrow> bool" where
  "isspace c = (c = CHR '' '' \<or> c = CHR 0x09 \<or> c = CHR 0x0A \<or> c = CHR 0x0B
                \<or> c = CHR 0x0C \<or> c = CHR 0x0D)"

definition isdigit :: "char \<Rightarrow> bool" where
  "isdigit c = ((48::nat) \<le> of_char c \<and> (of_char c :: nat) \<le> 57)"

fun digits_value :: "int \<Rightarrow> string \<Rightarrow> int" where
  "digits_value acc [] = acc"
| "digits_value acc (d # ds) = digits_value (acc * 10 + (int (of_char d) - 48)) ds"

definition stoi :: "string \<Rightarrow> api_error + int" where
  "stoi str =
    (let t = dropWhile isspace (c_str str);
         neg = (t \<noteq> [] \<and> hd t = CHR ''-'');
         u = (if t \<noteq> [] \<and> (hd t = CHR ''-'' \<or> hd t = CHR ''+'') then tl t else t);
         ds = takeWhile isdigit u;
         v = (if neg then - digits_value 0 ds else digits_value 0 ds)
     in if ds = [] then Inl std_invalid_argument
        else if v < - 2147483648 \<or> 2147483647 < v then Inl std_out_of_range
        else Inr v)"

text \<open>\<open>struct tm\<close>, zero-initialised by \<open>tm t = {0}\<close> and then filled field by field.\<close>

record tm =
  tm_sec :: int
  tm_min :: int
  tm_hour :: int
  tm_mday :: int
  tm_mon :: int
  tm_year :: int
  tm_wday :: int
  tm_yday :: int
  tm_isdst :: int

definition tm_zero :: tm where
  "tm_zero = \<lparr>tm_sec = 0, tm_min = 0, tm_hour = 0, tm_mday = 0, tm_mon = 0, tm_year = 0,
              tm_wday = 0, tm_yday = 0, tm_isdst = 0\<rparr>"

text \<open>\<open>ts.substr(pos, n)\<close> and \<open>string(it + pos, it + pos + n)\<close> inside a string long enough.\<close>

definition substr :: "string \<Rightarrow> nat \<Rightarrow> nat \<Rightarrow> string" where
  "substr s pos n = take n (drop pos s)"

definition stoi_then :: "api_error + int \<Rightarrow> (int \<Rightarrow> api_error + 'a) \<Rightarrow> api_error + 'a" where
  "stoi_then r f = (case r of Inl e \<Rightarrow> Inl e | Inr v \<Rightarrow> f v)"

text \<open>
  \<open>timegm\<close> belongs to the C library; it is a parameter of the model (the seconds since the
  epoch of a broken-down UTC time). The six \<open>stoi\<close> calls run in source order, so the first
  one that throws decides the exception.
\<close>

definition timestamp_to_ms :: "(tm \<Rightarrow> int) \<Rightarrow> string \<Rightarrow> api_error + int" where
  "timestamp_to_ms timegm ts =
    (if length ts \<noteq> 24 \<or> substr ts 20 4 \<noteq> ''0000''
     then Inl (APIException ''invalid timestamp from streamerInfo'')
     else
       stoi_then (stoi (substr ts 0 4)) (\<lambda>y.
       stoi_then (stoi (substr ts 5 2)) (\<lambda>mo.
       stoi_then (stoi (substr ts 8 2)) (\<lambda>d.
       stoi_then (stoi (substr ts 11 2)) (\<lambda>h.
       stoi_then (stoi (substr ts 14 2)) (\<lambda>mi.
       stoi_then (stoi (substr ts 17 2)) (\<lambda>sec.
         Inr (timegm (tm_zero\<lparr>tm_year := y - 1900, tm_mon := mo - 1, tm_mday := d,
                               tm_hour := h, tm_min := mi, tm_sec := sec,
                               tm_isdst := 0\<rparr>) * 1000))))))))"

text \<open>
  A concrete \<open>timegm\<close> for evaluating examples: the POSIX reading of a broken-down UTC time
  in the proleptic Gregorian calendar, with the month normalised into the year.
\<close>

definition days_from_civil :: "int \<Rightarrow> int \<Rightarrow> int \<Rightarrow> int" where
  "days_from_civil y m d =
    (let y' = (if m \<le> 2 then y - 1 else y);
         era = y' div 400;
         yoe = y' - era * 400;
         doy = (153 * (if 2 < m then m - 3 else m + 9) + 2) div 5 + d - 1;
         doe = yoe * 365 + yoe div 4 - yoe div 100 + doy
     in era * 146097 + doe - 719468)"

definition timegm_utc :: "tm \<Rightarrow> int" where
  "timegm_utc t =
    (let year = 1900 + tm_year t + tm_mon t div 12;
         mon = tm_mon t mod 12;
         days = days_from_civil year (mon + 1) 1 + (tm_mday t - 1)
     in ((days * 24 + tm_hour t) * 60 + tm_min t) * 60 + tm_sec t)"

section \<open>The HTTP connection (curl\_connect.cpp)\<close>

subsection \<open>The engine: libcurl as the connection uses it\<close>

text \<open>
  libcurl is outside the repository. The model keeps what the connection can observe of it:
  an easy handle remembers the value last applied for each option, \<open>curl_easy_reset\<close>
  forgets them all, and a \<open>curl_slist\<close> lives in a store from the address of its head to
  its entries, because the handle and the connection may both point to the same list.
  Whether a call of \<open>curl_easy_setopt\<close> is accepted and whether the allocation behind
  \<open>curl_slist_append\<close> succeeds is decided by the \<open>engine\<close>, a parameter of every
  operation.
\<close>

type_synonym addr = nat

datatype CURLoption =
    CURLOPT_URL | CURLOPT_SSL_VERIFYPEER | CURLOPT_SSL_VERIFYHOST | CURLOPT_CAINFO
  | CURLOPT_CAPATH | CURLOPT_ACCEPT_ENCODING | CURLOPT_TCP_KEEPALIVE | CURLOPT_HTTPGET
  | CURLOPT_POST | CURLOPT_COPYPOSTFIELDS | CURLOPT_WRITEFUNCTION | CURLOPT_WRITEDATA
  | CURLOPT_HTTPHEADER | CURLOPT_NOSIGNAL | CURLOPT_HEADER

text \<open>A parameter of \<open>set_option\<close>: a \<open>long\<close>, a C string, or a pointer (\<open>None\<close> is null).\<close>

datatype param = PLong int | PStr string | PPtr "addr option"

record easy_handle =
  hid :: addr
  hopts :: "CURLoption \<rightharpoonup> param"

type_synonym slist_heap = "addr \<rightharpoonup> string list"

record engine =
  setopt_ok :: "easy_handle \<Rightarrow> CURLoption \<Rightarrow> param \<Rightarrow> bool"
  slist_alloc :: "slist_heap \<Rightarrow> string \<Rightarrow> addr option"

text \<open>\<open>curl_easy_setopt\<close>: \<open>None\<close> stands for a return code other than \<open>CURLE_OK\<close>.\<close>

definition curl_easy_setopt ::
  "engine \<Rightarrow> easy_handle \<Rightarrow> CURLoption \<Rightarrow> param \<Rightarrow> easy_handle option" where
  "curl_easy_setopt E h opt p =
    (if setopt_ok E h opt p then Some (h\<lparr>hopts := (hopts h)(opt \<mapsto> p)\<rparr>) else None)"

definition curl_easy_reset :: "easy_handle \<Rightarrow> easy_handle" where
  "curl_easy_reset h = h\<lparr>hopts := Map.empty\<rparr>"

text \<open>The entries reachable from a list pointer; the null pointer is the empty list.\<close>

definition slist_data :: "slist_heap \<Rightarrow> addr option \<Rightarrow> string list" where
  "slist_data hp l =
    (case l of None \<Rightarrow> [] | Some a \<Rightarrow> (case hp a of None \<Rightarrow> [] | Some xs \<Rightarrow> xs))"

text \<open>
  \<open>curl_slist_append(list, s)\<close>: on an allocation failure it returns null and leaves the
  list as it is; appending to null returns the new node, otherwise the unchanged head.
\<close>

definition curl_slist_append ::
  "engine \<Rightarrow> slist_heap \<Rightarrow> addr option \<Rightarrow> string \<Rightarrow> slist_heap \<times> addr option" where
  "curl_slist_append E hp l s =
    (case slist_alloc E hp s of
       None \<Rightarrow> (hp, None)
     | Some a \<Rightarrow>
        (case l of
           None \<Rightarrow> (hp(a \<mapsto> [s]), Some a)
         | Some h \<Rightarrow> (hp(h \<mapsto> slist_data hp l @ [s]), Some h)))"

definition curl_slist_free_all :: "slist_heap \<Rightarrow> addr option \<Rightarrow> slist_heap" where
  "curl_slist_free_all hp l = (case l of None \<Rightarrow> hp | Some a \<Rightarrow> hp(a := None))"

subsection \<open>Exceptions and the connection object\<close>

text \<open>
  The three exception classes; \<open>CurlOptionException\<close> keeps its \<open>option\<close> and
  \<open>value\<close> members (its message text is not modelled), \<open>CurlConnectionError\<close> its
  \<open>code\<close> (a \<open>CURLcode\<close>, 0 being \<open>CURLE_OK\<close>).
\<close>

datatype curl_error =
    CurlException string
  | CurlOptionException CURLoption string
  | CurlConnectionError nat

record connection =
  header :: "addr option"
  handle :: "easy_handle option"
  options :: "CURLoption \<rightharpoonup> string"
  slists :: slist_heap

text \<open>
  A member function returns what it returned or threw together with the object as it is
  left; the \<open>slists\<close> field carries the store of native lists along.
\<close>

type_synonym 'a outcome = "(curl_error + 'a) \<times> connection"

definition and_then :: "'a outcome \<Rightarrow> (connection \<Rightarrow> 'b outcome) \<Rightarrow> 'b outcome" where
  "and_then r f = (case r of (Inl e, c) \<Rightarrow> (Inl e, c) | (Inr v, c) \<Rightarrow> f c)"

definition closed_what :: string where
  "closed_what = ''connection/handle has been closed''"

text \<open>\<open>std::to_string\<close> on an unsigned and on a signed integer.\<close>

function to_string_nat :: "nat \<Rightarrow> string" where
  "to_string_nat n =
    (if n < 10 then [''0123456789'' ! n]
     else to_string_nat (n div 10) @ [''0123456789'' ! (n mod 10)])"
  by pat_completeness auto
termination
  by (relation "measure (\<lambda>n. n)") auto

definition to_string_int :: "int \<Rightarrow> string" where
  "to_string_int i = (if i < 0 then CHR ''-'' # to_string_nat (nat (- i)) else to_string_nat (nat i))"

text \<open>
  Modelled from the spec: \<open>is_closed\<close>, declared in the header curl\_connect.h that is not
  among the sources. "Once the handle is null ... closed".
\<close>

definition is_closed :: "connection \<Rightarrow> bool" where
  "is_closed c = (handle c = None)"

text \<open>
  Modelled from the spec: the string form that the registry keeps for a parameter
  (template \<open>to<T>::str\<close> of curl\_connect.h, not among the sources). "Value: the string
  form of whatever was last set for that identifier"; write destination and callback are
  kept as "a raw address/handle value", which \<open>operator<<\<close> reads back with \<open>stoull\<close>.
\<close>

definition to_str :: "param \<Rightarrow> string" where
  "to_str p =
    (case p of
       PLong i \<Rightarrow> to_string_int i
     | PStr s \<Rightarrow> s
     | PPtr None \<Rightarrow> to_string_nat 0
     | PPtr (Some a) \<Rightarrow> to_string_nat a)"

text \<open>
  Modelled from the spec: \<open>set_option\<close>, the member template of curl\_connect.h that is not
  among the sources. "Each SET\_ operation: validates the connection is open (else fails
  with a closed-connection error), applies the option to the native handle, and -- only on
  success -- records/overwrites the corresponding Option Registry entry. If the underlying
  apply fails, raise a malformed-option error carrying the option identifier and the
  attempted string value; the Option Registry must not be updated on failure."
\<close>

definition set_option' :: "engine \<Rightarrow> CURLoption \<Rightarrow> param \<Rightarrow> connection \<Rightarrow> unit outcome" where
  "set_option' E opt p c =
    (case handle c of
       None \<Rightarrow> (Inl (CurlException closed_what), c)
     | Some h \<Rightarrow>
        (case curl_easy_setopt E h opt p of
           None \<Rightarrow> (Inl (CurlOptionException opt (to_str p)), c)
         | Some h' \<Rightarrow>
            (Inr (), c\<lparr>handle := Some h', options := (options c)(opt \<mapsto> to_str p)\<rparr>)))"

subsection \<open>CurlConnection\<close>

text \<open>
  The default constructor: \<open>h\<close> is what \<open>curl_easy_init()\<close> returned (the address of a
  new handle with no option applied, or null), \<open>hp\<close> the store of native lists.
\<close>

definition CurlConnection :: "engine \<Rightarrow> addr option \<Rightarrow> slist_heap \<Rightarrow> unit outcome" where
  "CurlConnection E h hp =
    set_option' E CURLOPT_NOSIGNAL (PLong 1)
      \<lparr>header = None,
       handle = map_option (\<lambda>a. \<lparr>hid = a, hopts = Map.empty\<rparr>) h,
       options = Map.empty,
       slists = hp\<rparr>"

definition SET_url :: "engine \<Rightarrow> string \<Rightarrow> connection \<Rightarrow> unit outcome" where
  "SET_url E url c = set_option' E CURLOPT_URL (PStr (c_str url)) c"

definition CurlConnection_url ::
  "engine \<Rightarrow> addr option \<Rightarrow> slist_heap \<Rightarrow> string \<Rightarrow> unit outcome" where
  "CurlConnection_url E h hp url = and_then (CurlConnection E h hp) (SET_url E url)"

text \<open>
  \<open>WriteCallback::write\<close> appends \<open>sz * n\<close> characters to the buffer and returns how many
  it wrote; \<open>curl_easy_perform\<close> hands it every chunk it received.
\<close>

definition WriteCallback_write :: "string \<Rightarrow> string \<Rightarrow> nat \<times> string" where
  "WriteCallback_write input buf = (length input, buf @ input)"

fun deliver :: "string list \<Rightarrow> string \<Rightarrow> string" where
  "deliver [] buf = buf"
| "deliver (chunk # rest) buf = deliver rest (snd (WriteCallback_write chunk buf))"

text \<open>
  What one call of \<open>execute\<close> meets outside the object: the addresses of the callback
  function and of the local \<open>WriteCallback cb\<close>, and what the engine does during
  \<open>curl_easy_perform\<close>: its return code, the chunks it delivered, the response code that
  \<open>curl_easy_getinfo\<close> reports, and the clock reading of \<open>clock_ty::now()\<close> right after.
\<close>

record exec_env =
  write_addr :: addr
  cb_addr :: addr
  ccode :: nat
  chunks :: "string list"
  response_code :: int
  now_after :: nat

definition execute ::
  "engine \<Rightarrow> exec_env \<Rightarrow> connection \<Rightarrow> (int \<times> string \<times> nat) outcome" where
  "execute E x c =
    (if handle c = None then (Inl (CurlException closed_what), c)
     else
       and_then (set_option' E CURLOPT_WRITEFUNCTION (PPtr (Some (write_addr x))) c) (\<lambda>c1.
       and_then (set_option' E CURLOPT_WRITEDATA (PPtr (Some (cb_addr x))) c1) (\<lambda>c2.
         let cb = deliver (chunks x) [];
             tp = now_after x
         in if ccode x \<noteq> 0 then (Inl (CurlConnectionError (ccode x)), c2)
            else (Inr (response_code x, cb, tp), c2))))"

definition close :: "connection \<Rightarrow> connection" where
  "close c =
    (let c1 = (if header c \<noteq> None
               then c\<lparr>slists := curl_slist_free_all (slists c) (header c), header := None\<rparr>
               else c);
         c2 = (if handle c1 \<noteq> None then c1\<lparr>handle := None\<rparr> else c1)
     in c2\<lparr>options := Map.empty\<rparr>)"

text \<open>The destructor only calls \<open>close\<close>.\<close>

definition destructor :: "connection \<Rightarrow> connection" where
  "destructor c = close c"

definition SET_ssl_verify :: "engine \<Rightarrow> connection \<Rightarrow> unit outcome" where
  "SET_ssl_verify E c =
    and_then (set_option' E CURLOPT_SSL_VERIFYPEER (PLong 1) c)
      (set_option' E CURLOPT_SSL_VERIFYHOST (PLong 2))"

definition SET_ssl_verify_using_ca_bundle :: "engine \<Rightarrow> string \<Rightarrow> connection \<Rightarrow> unit outcome" where
  "SET_ssl_verify_using_ca_bundle E path c =
    and_then (SET_ssl_verify E c) (set_option' E CURLOPT_CAINFO (PStr (c_str path)))"

definition SET_ssl_verify_using_ca_certs :: "engine \<Rightarrow> string \<Rightarrow> connection \<Rightarrow> unit outcome" where
  "SET_ssl_verify_using_ca_certs E dir c =
    and_then (SET_ssl_verify E c) (set_option' E CURLOPT_CAPATH (PStr (c_str dir)))"

definition SET_encoding :: "engine \<Rightarrow> string \<Rightarrow> connection \<Rightarrow> unit outcome" where
  "SET_encoding E enc c = set_option' E CURLOPT_ACCEPT_ENCODING (PStr (c_str enc)) c"

definition SET_keepalive :: "engine \<Rightarrow> connection \<Rightarrow> unit outcome" where
  "SET_keepalive E c = set_option' E CURLOPT_TCP_KEEPALIVE (PLong 1) c"

text \<open>
  The loop of \<open>ADD_headers\<close>: each pair becomes \<open>first + ": " + second\<close>, and
  \<open>_header\<close> is overwritten with what \<open>curl_slist_append\<close> returned before it is tested.
\<close>

definition header_line :: "string \<times> string \<Rightarrow> string" where
  "header_line h = fst h @ '': '' @ snd h"

fun ADD_headers_loop :: "engine \<Rightarrow> (string \<times> string) list \<Rightarrow> connection \<Rightarrow> unit outcome" where
  "ADD_headers_loop E [] c = (Inr (), c)"
| "ADD_headers_loop E (h # hs) c =
    (let s = header_line h;
         r = curl_slist_append E (slists c) (header c) (c_str s);
         c' = c\<lparr>header := snd r, slists := fst r\<rparr>
     in if header c' = None then (Inl (CurlOptionException CURLOPT_HEADER s), c')
        else ADD_headers_loop E hs c')"

definition ADD_headers :: "engine \<Rightarrow> (string \<times> string) list \<Rightarrow> connection \<Rightarrow> unit outcome" where
  "ADD_headers E headers c =
    (if handle c = None then (Inl (CurlException closed_what), c)
     else if headers = [] then (Inr (), c)
     else and_then (ADD_headers_loop E headers c)
            (\<lambda>c'. set_option' E CURLOPT_HTTPHEADER (PPtr (header c')) c'))"

definition RESET_headers :: "connection \<Rightarrow> connection" where
  "RESET_headers c =
    c\<lparr>slists := curl_slist_free_all (slists c) (header c),
      header := None,
      options := (options c)(CURLOPT_HTTPHEADER := None)\<rparr>"

definition RESET_options :: "connection \<Rightarrow> connection" where
  "RESET_options c =
    (let c1 = RESET_headers c;
         c2 = (case handle c1 of
                 Some h \<Rightarrow> c1\<lparr>handle := Some (curl_easy_reset h)\<rparr>
               | None \<Rightarrow> c1)
     in c2\<lparr>options := Map.empty\<rparr>)"

subsection \<open>HTTPSConnection, HTTPSGetConnection, HTTPSPostConnection\<close>

definition DEFAULT_ENCODING :: string where
  "DEFAULT_ENCODING = ''gzip''"

definition HTTPSConnection :: "engine \<Rightarrow> addr option \<Rightarrow> slist_heap \<Rightarrow> unit outcome" where
  "HTTPSConnection E h hp = and_then (CurlConnection E h hp) (SET_ssl_verify E)"

definition HTTPSConnection_url ::
  "engine \<Rightarrow> addr option \<Rightarrow> slist_heap \<Rightarrow> string \<Rightarrow> unit outcome" where
  "HTTPSConnection_url E h hp url = and_then (CurlConnection_url E h hp url) (SET_ssl_verify E)"

definition HTTPSGetConnection :: "engine \<Rightarrow> addr option \<Rightarrow> slist_heap \<Rightarrow> unit outcome" where
  "HTTPSGetConnection E h hp =
    and_then (and_then (and_then (HTTPSConnection E h hp)
      (set_option' E CURLOPT_HTTPGET (PLong 1)))
      (SET_encoding E DEFAULT_ENCODING))
      (SET_keepalive E)"

definition HTTPSGetConnection_url ::
  "engine \<Rightarrow> addr option \<Rightarrow> slist_heap \<Rightarrow> string \<Rightarrow> unit outcome" where
  "HTTPSGetConnection_url E h hp url =
    and_then (and_then (and_then (HTTPSConnection_url E h hp url)
      (set_option' E CURLOPT_HTTPGET (PLong 1)))
      (SET_encoding E DEFAULT_ENCODING))
      (SET_keepalive E)"

definition HTTPSPostConnection :: "engine \<Rightarrow> addr option \<Rightarrow> slist_heap \<Rightarrow> unit outcome" where
  "HTTPSPostConnection E h hp =
    and_then (and_then (and_then (HTTPSConnection E h hp)
      (set_option' E CURLOPT_POST (PLong 1)))
      (SET_encoding E DEFAULT_ENCODING))
      (SET_keepalive E)"

definition HTTPSPostConnection_url ::
  "engine \<Rightarrow> addr option \<Rightarrow> slist_heap \<Rightarrow> string \<Rightarrow> unit outcome" where
  "HTTPSPostConnection_url E h hp url =
    and_then (and_then (and_then (HTTPSConnection_url E h hp url)
      (set_option' E CURLOPT_POST (PLong 1)))
      (SET_encoding E DEFAULT_ENCODING))
      (SET_keepalive E)"

text \<open>
  The buffer that \<open>SET_fields\<close> builds for a non-empty list: every pair is streamed as
  \<open>first = second &\<close>, then the last character is erased.
\<close>

definition SET_fields_buffer :: "(string \<times> string) list \<Rightarrow> string" where
  "SET_fields_buffer flds =
    (let ss = concat (map (\<lambda>f. fst f @ ''='' @ snd f @ ''&'') flds)
     in if ss \<noteq> [] then butlast ss else ss)"

definition SET_fields :: "engine \<Rightarrow> (string \<times> string) list \<Rightarrow> connection \<Rightarrow> unit outcome" where
  "SET_fields E flds c =
    (if is_closed c then (Inl (CurlException closed_what), c)
     else if flds \<noteq> []
       then set_option' E CURLOPT_COPYPOSTFIELDS (PStr (c_str (SET_fields_buffer flds))) c
       else (Inr (), c))"

subsection \<open>Decoding for the debug output\<close>

text \<open>One round of the loop body of \<open>fields_str_to_map\<close> on the segment \<open>s\<close>.\<close>

definition fields_segment :: "string \<Rightarrow> (string \<times> string) list \<Rightarrow> (string \<times> string) list" where
  "fields_segment s res =
    (if s \<noteq> []
     then (if CHR ''='' \<in> set s
           then res @ [(takeWhile (\<lambda>c. c \<noteq> CHR ''='') s, tl (dropWhile (\<lambda>c. c \<noteq> CHR ''='') s))]
           else res)
     else res)"

function fields_str_to_map_loop ::
  "string \<Rightarrow> (string \<times> string) list \<Rightarrow> (string \<times> string) list" where
  "fields_str_to_map_loop b res =
    (if dropWhile (\<lambda>c. c \<noteq> CHR ''&'') b = []
     then fields_segment (takeWhile (\<lambda>c. c \<noteq> CHR ''&'') b) res
     else fields_str_to_map_loop (tl (dropWhile (\<lambda>c. c \<noteq> CHR ''&'') b))
            (fields_segment (takeWhile (\<lambda>c. c \<noteq> CHR ''&'') b) res))"
  by pat_completeness auto
termination
proof (relation "measure (\<lambda>(b, res). length b)")
  show "wf (measure (\<lambda>(b, res). length b))" by simp
next
  fix b :: string and res :: "(string \<times> string) list"
  assume ne: "dropWhile (\<lambda>c. c \<noteq> CHR ''&'') b \<noteq> []"
  have "length (dropWhile (\<lambda>c. c \<noteq> CHR ''&'') b) \<le> length b"
    by (rule length_dropWhile_le)
  with ne have "length (tl (dropWhile (\<lambda>c. c \<noteq> CHR ''&'') b)) < length b"
    by (cases "dropWhile (\<lambda>c. c \<noteq> CHR ''&'') b") auto
  then show "((tl (dropWhile (\<lambda>c. c \<noteq> CHR ''&'') b),
               fields_segment (takeWhile (\<lambda>c. c \<noteq> CHR ''&'') b) res), (b, res))
             \<in> measure (\<lambda>(b, res). length b)"
    by simp
qed

definition fields_str_to_map :: "string \<Rightarrow> (string \<times> string) list" where
  "fields_str_to_map fstr = fields_str_to_map_loop fstr []"

text \<open>
  \<open>header_list_to_map\<close> walks the native list. For an entry without a colon the source
  builds a string from the iterator one past the end, which is undefined; the model
  returns \<open>None\<close> there.
\<close>

fun header_list_to_map_loop ::
  "string list \<Rightarrow> (string \<times> string) list \<Rightarrow> (string \<times> string) list option" where
  "header_list_to_map_loop [] res = Some res"
| "header_list_to_map_loop (s # hlist) res =
    (if CHR '':'' \<in> set s
     then header_list_to_map_loop hlist
            (res @ [(takeWhile (\<lambda>c. c \<noteq> CHR '':'') s, tl (dropWhile (\<lambda>c. c \<noteq> CHR '':'') s))])
     else None)"

definition header_list_to_map :: "string list \<Rightarrow> (string \<times> string) list option" where
  "header_list_to_map hlist = header_list_to_map_loop hlist []"

text \<open>
  The header pairs that \<open>operator<<\<close> prints for a connection: it walks the registry, and
  at the entry of \<open>CURLOPT_HTTPHEADER\<close> it prints \<open>header_list_to_map(connection._header)\<close>;
  without that entry no header line is printed.
\<close>

definition rendered_headers :: "connection \<Rightarrow> (string \<times> string) list option" where
  "rendered_headers c =
    (case options c CURLOPT_HTTPHEADER of
       None \<Rightarrow> Some []
     | Some v \<Rightarrow> header_list_to_map (slist_data (slists c) (header c)))"

subsection \<open>Reference notions and example data\<close>

text \<open>
  The wire form as the specification words it: \<open>key1=value1&key2=value2&...\<close> with no
  trailing separator. It is compared with \<open>SET_fields_buffer\<close> below.
\<close>

fun join_fields :: "(string \<times> string) list \<Rightarrow> string" where
  "join_fields [] = []"
| "join_fields [f] = fst f @ ''='' @ snd f"
| "join_fields (f # g # fs) = fst f @ ''='' @ snd f @ ''&'' @ join_fields (g # fs)"

definition no_amp_eq :: "string \<Rightarrow> bool" where
  "no_amp_eq s = (CHR ''&'' \<notin> set s \<and> CHR ''='' \<notin> set s)"

definition no_nul :: "string \<Rightarrow> bool" where
  "no_nul s = (CHR 0x00 \<notin> set s)"

text \<open>
  Two engines for concrete runs: one accepts every option and allocates every list node
  (a new list gets address 7); the other differs only in that the allocation for one given
  entry fails.
\<close>

definition accepting_engine :: engine where
  "accepting_engine = \<lparr>setopt_ok = (\<lambda>h opt p. True), slist_alloc = (\<lambda>hp s. Some 7)\<rparr>"

definition failing_on :: "string \<Rightarrow> engine" where
  "failing_on entry =
    \<lparr>setopt_ok = (\<lambda>h opt p. True),
     slist_alloc = (\<lambda>hp s. if s = entry then None else Some 7)\<rparr>"

text \<open>A connection as the default constructor leaves it, on handle 1 and an empty store.\<close>

definition fresh_connection :: connection where
  "fresh_connection = snd (CurlConnection accepting_engine (Some 1) Map.empty)"

text \<open>The options applied to the native handle of a connection (none when it is closed).\<close>

definition applied :: "connection \<Rightarrow> CURLoption \<rightharpoonup> param" where
  "applied c = (case handle c of None \<Rightarrow> Map.empty | Some h \<Rightarrow> hopts h)"

text \<open>Two engine replies for concrete runs of \<open>execute\<close>: a 404 answer and a timeout (code 28).\<close>

definition not_found_reply :: exec_env where
  "not_found_reply =
    \<lparr>write_addr = 4096, cb_addr = 8192, ccode = 0, chunks = [''Not '', ''Found''],
     response_code = 404, now_after = 17\<rparr>"

definition timeout_reply :: exec_env where
  "timeout_reply =
    \<lparr>write_addr = 4096, cb_addr = 8192, ccode = 28, chunks = [''par''],
     response_code = 0, now_after = 30\<rparr>"

text \<open>
  The fresh connection after \<open>ADD_headers\<close> of one pair and of two pairs, on the accepting
  engine.
\<close>

definition one_header_connection :: connection where
  "one_header_connection = snd (ADD_headers accepting_engine [(''A'', ''1'')] fresh_connection)"

definition two_headers_connection :: connection where
  "two_headers_connection =
     snd (ADD_headers accepting_engine [(''A'', ''1''), (''B'', ''2'')] fresh_connection)"

subsection \<open>Sequences of option-setting operations\<close>

text \<open>
  The operations that set options, as values, so that a caller's sequence of calls is a
  list. \<open>run_op\<close> dispatches to the member function and forgets the value \<open>execute\<close>
  returns.
\<close>

datatype operation =
    Op_SET_url string
  | Op_SET_ssl_verify
  | Op_SET_ssl_verify_using_ca_bundle string
  | Op_SET_ssl_verify_using_ca_certs string
  | Op_SET_encoding string
  | Op_SET_keepalive
  | Op_ADD_headers "(string \<times> string) list"
  | Op_SET_fields "(string \<times> string) list"
  | Op_execute exec_env

definition discard :: "'a outcome \<Rightarrow> unit outcome" where
  "discard r = (case r of (Inl e, c) \<Rightarrow> (Inl e, c) | (Inr v, c) \<Rightarrow> (Inr (), c))"

fun run_op :: "engine \<Rightarrow> operation \<Rightarrow> connection \<Rightarrow> unit outcome" where
  "run_op E (Op_SET_url url) c = SET_url E url c"
| "run_op E Op_SET_ssl_verify c = SET_ssl_verify E c"
| "run_op E (Op_SET_ssl_verify_using_ca_bundle path) c = SET_ssl_verify_using_ca_bundle E path c"
| "run_op E (Op_SET_ssl_verify_using_ca_certs dir) c = SET_ssl_verify_using_ca_certs E dir c"
| "run_op E (Op_SET_encoding enc) c = SET_encoding E enc c"
| "run_op E Op_SET_keepalive c = SET_keepalive E c"
| "run_op E (Op_ADD_headers hs) c = ADD_headers E hs c"
| "run_op E (Op_SET_fields flds) c = SET_fields E flds c"
| "run_op E (Op_execute x) c = discard (execute E x c)"

text \<open>
  A call set its options successfully when it returned, or when it threw only the
  \<open>CurlConnectionError\<close> of \<open>execute\<close>, which comes after both bindings were made.
\<close>

definition settings_applied :: "unit outcome \<Rightarrow> bool" where
  "settings_applied r =
    (case fst r of Inr u \<Rightarrow> True | Inl (CurlConnectionError code) \<Rightarrow> True | Inl e \<Rightarrow> False)"

text \<open>The caller runs the calls one after the other on the same object.\<close>

fun run_ops :: "engine \<Rightarrow> operation list \<Rightarrow> connection \<Rightarrow> connection" where
  "run_ops E [] c = c"
| "run_ops E (op # ops) c = run_ops E ops (snd (run_op E op c))"

fun all_applied :: "engine \<Rightarrow> operation list \<Rightarrow> connection \<Rightarrow> bool" where
  "all_applied E [] c = True"
| "all_applied E (op # ops) c =
    (settings_applied (run_op E op c) \<and> all_applied E ops (snd (run_op E op c)))"

text \<open>
  The reading of the claim: the option identifiers a call sets and the string value of
  each, in the order of setting. \<open>ADD_headers\<close> sets the header-list option to the pointer
  of the list it has built.
\<close>

fun op_writes :: "engine \<Rightarrow> operation \<Rightarrow> connection \<Rightarrow> (CURLoption \<times> string) list" where
  "op_writes E (Op_SET_url url) c = [(CURLOPT_URL, c_str url)]"
| "op_writes E Op_SET_ssl_verify c =
    [(CURLOPT_SSL_VERIFYPEER, ''1''), (CURLOPT_SSL_VERIFYHOST, ''2'')]"
| "op_writes E (Op_SET_ssl_verify_using_ca_bundle path) c =
    [(CURLOPT_SSL_VERIFYPEER, ''1''), (CURLOPT_SSL_VERIFYHOST, ''2''),
     (CURLOPT_CAINFO, c_str path)]"
| "op_writes E (Op_SET_ssl_verify_using_ca_certs dir) c =
    [(CURLOPT_SSL_VERIFYPEER, ''1''), (CURLOPT_SSL_VERIFYHOST, ''2''),
     (CURLOPT_CAPATH, c_str dir)]"
| "op_writes E (Op_SET_encoding enc) c = [(CURLOPT_ACCEPT_ENCODING, c_str enc)]"
| "op_writes E Op_SET_keepalive c = [(CURLOPT_TCP_KEEPALIVE, ''1'')]"
| "op_writes E (Op_ADD_headers hs) c =
    (if hs = [] then []
     else [(CURLOPT_HTTPHEADER, to_str (PPtr (header (snd (ADD_headers_loop E hs c)))))])"
| "op_writes E (Op_SET_fields flds) c =
    (if flds = [] then [] else [(CURLOPT_COPYPOSTFIELDS, c_str (join_fields flds))])"
| "op_writes E (Op_execute x) c =
    [(CURLOPT_WRITEFUNCTION, to_string_nat (write_addr x)),
     (CURLOPT_WRITEDATA, to_string_nat (cb_addr x))]"

fun seq_writes :: "engine \<Rightarrow> operation list \<Rightarrow> connection \<Rightarrow> (CURLoption \<times> string) list" where
  "seq_writes E [] c = []"
| "seq_writes E (op # ops) c = op_writes E op c @ seq_writes E ops (snd (run_op E op c))"

text \<open>Last write wins: the registry after the writes \<open>ws\<close>, made first to last, on \<open>m\<close>.\<close>

definition registry_after :: "(CURLoption \<rightharpoonup> string) \<Rightarrow> (CURLoption \<times> string) list \<Rightarrow> (CURLoption \<rightharpoonup> string)" where
  "registry_after m ws = m ++ map_of (rev ws)"

text \<open>The registry mirrors the handle: each entry is the string form of the applied value.\<close>

definition mirrors :: "connection \<Rightarrow> bool" where
  "mirrors c = (\<forall>k. options c k = map_option to_str (applied c k))"

text \<open>A sequence for concrete runs: the URL is set twice, with a header call in between.\<close>

definition example_ops :: "operation list" where
  "example_ops =
    [Op_SET_url ''https://example.test/a'', Op_SET_ssl_verify, Op_ADD_headers [(''A'', ''1'')],
     Op_SET_url ''https://example.test/b'']"

text \<open>An engine that refuses one option identifier and accepts the others.\<close>

definition rejecting :: "CURLoption \<Rightarrow> engine" where
  "rejecting k = \<lparr>setopt_ok = (\<lambda>h opt p. opt \<noteq> k), slist_alloc = (\<lambda>hp s. Some 7)\<rparr>"

text \<open>A field list whose one value holds a NUL character between 1 and 2.\<close>

definition nul_value_fields :: "(string \<times> string) list" where
  "nul_value_fields = [(''a'', [CHR ''1'', CHR 0x00, CHR ''2''])]"

declare to_string_nat.simps [simp del]
declare fields_str_to_map_loop.simps [simp del]

section \<open>Results about the streaming helpers\<close>

lemma StreamerService_accepts:
  "s \<in> set accepted_service_names \<Longrightarrow> \<exists>t. StreamerService s = Inr t"
  unfolding accepted_service_names_def StreamerService_def by auto

lemma StreamerService_rejects:
  "s \<notin> set accepted_service_names \<Longrightarrow>
     StreamerService s = Inl (ValueException (''invalid service name: '' @ s))"
  unfolding accepted_service_names_def StreamerService_def by simp

text \<open>
  Claim C10. The string constructor of StreamerService returns an enumerator exactly for
  the eighteen listed names (which are pairwise distinct), and throws
  \<open>ValueException("invalid service name: " + service_name)\<close> for every other string;
  \<open>CHART_FOREX\<close> and \<open>TIMESALE_FOREX\<close> are among the rejected ones.
\<close>

theorem StreamerService_accepts_exactly:
  "length accepted_service_names = 18 \<and> distinct accepted_service_names
   \<and> ((\<exists>t. StreamerService s = Inr t) \<longleftrightarrow> s \<in> set accepted_service_names)
   \<and> (s \<notin> set accepted_service_names \<longrightarrow>
        StreamerService s = Inl (ValueException (''invalid service name: '' @ s)))
   \<and> StreamerService ''CHART_FOREX''
        = Inl (ValueException ''invalid service name: CHART_FOREX'')
   \<and> StreamerService ''TIMESALE_FOREX''
        = Inl (ValueException ''invalid service name: TIMESALE_FOREX'')"
proof -
  have n: "length accepted_service_names = 18" and d: "distinct accepted_service_names"
    by (simp_all add: accepted_service_names_def)
  have iff: "(\<exists>t. StreamerService s = Inr t) \<longleftrightarrow> s \<in> set accepted_service_names"
  proof
    assume "\<exists>t. StreamerService s = Inr t"
    then obtain t where t: "StreamerService s = Inr t" ..
    show "s \<in> set accepted_service_names"
    proof (rule ccontr)
      assume "s \<notin> set accepted_service_names"
      from StreamerService_rejects [OF this] t show False by simp
    qed
  next
    assume "s \<in> set accepted_service_names"
    then show "\<exists>t. StreamerService s = Inr t" by (rule StreamerService_accepts)
  qed
  have c: "StreamerService ''CHART_FOREX''
             = Inl (ValueException ''invalid service name: CHART_FOREX'')"
    by (simp add: StreamerService_def)
  have t: "StreamerService ''TIMESALE_FOREX''
             = Inl (ValueException ''invalid service name: TIMESALE_FOREX'')"
    by (simp add: StreamerService_def)
  from n d iff c t StreamerService_rejects [of s] show ?thesis by blast
qed

theorem StreamerService_accepts_exactly_witness:
  "''QUOTE'' \<in> set accepted_service_names \<and> StreamerService ''QUOTE'' = Inr QUOTE
   \<and> ''quote'' \<notin> set accepted_service_names
   \<and> StreamerService ''quote'' = Inl (ValueException ''invalid service name: quote'')"
proof -
  have a: "''QUOTE'' \<in> set accepted_service_names"
    by (simp add: accepted_service_names_def)
  have b: "''quote'' \<notin> set accepted_service_names"
    by (simp add: accepted_service_names_def)
  from StreamerService_accepts_exactly [of "''quote''"] b
  have r: "StreamerService ''quote'' = Inl (ValueException (''invalid service name: '' @ ''quote''))"
    by blast
  from StreamerService_accepts_exactly [of "''QUOTE''"] a
  obtain t where q: "StreamerService ''QUOTE'' = Inr t" by blast
  have "StreamerService ''QUOTE'' = Inr QUOTE" by (simp add: StreamerService_def)
  with a b r show ?thesis by simp
qed

lemma stoi_not_APIException: "stoi s \<noteq> Inl (APIException m)"
  by (simp add: stoi_def Let_def)

lemma stoi_then_APIException:
  "stoi_then (stoi a) f = Inl (APIException m) \<Longrightarrow>
     \<exists>v. stoi a = Inr v \<and> f v = Inl (APIException m)"
  by (cases "stoi a") (auto simp: stoi_then_def stoi_not_APIException)

lemma substr_list_update:
  "i < p \<or> p + n \<le> i \<Longrightarrow> substr (s[i := c]) p n = substr s p n"
  by (auto simp: substr_def list_eq_iff_nth_eq nth_list_update)

lemma timestamp_to_ms_APIException_iff:
  "(\<exists>m. timestamp_to_ms tg ts = Inl (APIException m))
     \<longleftrightarrow> (length ts \<noteq> 24 \<or> substr ts 20 4 \<noteq> ''0000'')"
proof
  assume "\<exists>m. timestamp_to_ms tg ts = Inl (APIException m)"
  then obtain m where m: "timestamp_to_ms tg ts = Inl (APIException m)" ..
  show "length ts \<noteq> 24 \<or> substr ts 20 4 \<noteq> ''0000''"
  proof (rule ccontr)
    assume "\<not> (length ts \<noteq> 24 \<or> substr ts 20 4 \<noteq> ''0000'')"
    with m have "stoi_then (stoi (substr ts 0 4)) (\<lambda>y.
       stoi_then (stoi (substr ts 5 2)) (\<lambda>mo.
       stoi_then (stoi (substr ts 8 2)) (\<lambda>d.
       stoi_then (stoi (substr ts 11 2)) (\<lambda>h.
       stoi_then (stoi (substr ts 14 2)) (\<lambda>mi.
       stoi_then (stoi (substr ts 17 2)) (\<lambda>sec.
         Inr (tg (tm_zero\<lparr>tm_year := y - 1900, tm_mon := mo - 1, tm_mday := d,
                           tm_hour := h, tm_min := mi, tm_sec := sec,
                           tm_isdst := 0\<rparr>) * 1000))))))) = Inl (APIException m)"
      by (simp add: timestamp_to_ms_def)
    then show False
      by (auto dest!: stoi_then_APIException)
  qed
next
  assume "length ts \<noteq> 24 \<or> substr ts 20 4 \<noteq> ''0000''"
  then show "\<exists>m. timestamp_to_ms tg ts = Inl (APIException m)"
    by (auto simp: timestamp_to_ms_def)
qed

lemma timestamp_to_ms_ignores_separators:
  assumes "length ts = 24" and "i \<in> {4, 7, 10, 13, 16, 19}"
  shows "timestamp_to_ms tg (ts[i := c]) = timestamp_to_ms tg ts"
proof -
  have "substr (ts[i := c]) 20 4 = substr ts 20 4" "substr (ts[i := c]) 0 4 = substr ts 0 4"
    "substr (ts[i := c]) 5 2 = substr ts 5 2" "substr (ts[i := c]) 8 2 = substr ts 8 2"
    "substr (ts[i := c]) 11 2 = substr ts 11 2" "substr (ts[i := c]) 14 2 = substr ts 14 2"
    "substr (ts[i := c]) 17 2 = substr ts 17 2"
    using assms(2) by (auto intro!: substr_list_update)
  then show ?thesis by (simp add: timestamp_to_ms_def)
qed

lemmas stoi_eval = stoi_def c_str_def isspace_def isdigit_def Let_def

lemma stoi_values:
  "stoi ''2018'' = Inr 2018" "stoi ''06'' = Inr 6" "stoi ''12'' = Inr 12" "stoi ''02'' = Inr 2"
  "stoi ''18'' = Inr 18" "stoi ''23'' = Inr 23" "stoi ''6x'' = Inr 6" "stoi '' 2'' = Inr 2"
  by (simp_all add: stoi_eval)

lemma timegm_utc_value:
  "timegm_utc \<lparr>tm_sec = 23, tm_min = 18, tm_hour = 2, tm_mday = 12, tm_mon = 5,
      tm_year = 118, tm_wday = 0, tm_yday = 0, tm_isdst = 0\<rparr> * 1000 = 1528769903000"
  by (simp add: timegm_utc_def days_from_civil_def)

lemmas timestamp_eval =
  timestamp_to_ms_def substr_def stoi_then_def tm_zero_def stoi_values timegm_utc_value

text \<open>
  Claim C9. \<open>timestamp_to_ms\<close> throws its APIException ("invalid timestamp from
  streamerInfo") exactly when the length is not 24 or the characters 20 to 23 are not
  "0000". The characters at positions 4, 7, 10, 13, 16 and 19 are never read: replacing any
  of them by any character leaves the outcome unchanged. Hence inputs outside the wire
  format "YYYY-MM-DDThh:mm:ss+0000" (a minus sign for the plus, other separators, a field
  that only starts with a digit) return a value: with the POSIX \<open>timegm\<close> the three
  examples all give 1528769903000, the value of "2018-06-12T02:18:23+0000".
\<close>

theorem timestamp_to_ms_validates_only_length_and_zone:
  "((timestamp_to_ms tg ts = Inl (APIException ''invalid timestamp from streamerInfo''))
      \<longleftrightarrow> (length ts \<noteq> 24 \<or> substr ts 20 4 \<noteq> ''0000''))
   \<and> ((\<exists>m. timestamp_to_ms tg ts = Inl (APIException m))
      \<longleftrightarrow> (length ts \<noteq> 24 \<or> substr ts 20 4 \<noteq> ''0000''))
   \<and> (length ts = 24 \<and> i \<in> {4, 7, 10, 13, 16, 19}
        \<longrightarrow> timestamp_to_ms tg (ts[i := c]) = timestamp_to_ms tg ts)
   \<and> timestamp_to_ms timegm_utc ''2018-06-12T02:18:23+0000'' = Inr 1528769903000
   \<and> timestamp_to_ms timegm_utc ''2018-06-12T02:18:23-0000'' = Inr 1528769903000
   \<and> timestamp_to_ms timegm_utc ''2018/06/12 02.18.23_0000'' = Inr 1528769903000
   \<and> timestamp_to_ms timegm_utc ''2018-6x-12T 2:18:23+0000'' = Inr 1528769903000"
proof -
  have a: "(timestamp_to_ms tg ts = Inl (APIException ''invalid timestamp from streamerInfo''))
      \<longleftrightarrow> (length ts \<noteq> 24 \<or> substr ts 20 4 \<noteq> ''0000'')"
  proof
    assume "timestamp_to_ms tg ts = Inl (APIException ''invalid timestamp from streamerInfo'')"
    then have "\<exists>m. timestamp_to_ms tg ts = Inl (APIException m)" ..
    then show "length ts \<noteq> 24 \<or> substr ts 20 4 \<noteq> ''0000''"
      by (simp only: timestamp_to_ms_APIException_iff)
  next
    assume "length ts \<noteq> 24 \<or> substr ts 20 4 \<noteq> ''0000''"
    then show "timestamp_to_ms tg ts = Inl (APIException ''invalid timestamp from streamerInfo'')"
      by (auto simp: timestamp_to_ms_def)
  qed
  have e1: "timestamp_to_ms timegm_utc ''2018-06-12T02:18:23+0000'' = Inr 1528769903000"
    by (simp add: timestamp_eval)
  have e2: "timestamp_to_ms timegm_utc ''2018-06-12T02:18:23-0000'' = Inr 1528769903000"
    by (simp add: timestamp_eval)
  have e3: "timestamp_to_ms timegm_utc ''2018/06/12 02.18.23_0000'' = Inr 1528769903000"
    by (simp add: timestamp_eval)
  have e4: "timestamp_to_ms timegm_utc ''2018-6x-12T 2:18:23+0000'' = Inr 1528769903000"
    by (simp add: timestamp_eval)
  from a timestamp_to_ms_APIException_iff [of tg ts]
    timestamp_to_ms_ignores_separators [of ts i tg c] e1 e2 e3 e4
  show ?thesis by blast
qed

theorem timestamp_to_ms_validates_only_length_and_zone_witness:
  "length ''2018-06-12T02:18:23+0000'' = 24 \<and> (19::nat) \<in> {4, 7, 10, 13, 16, 19}
   \<and> timestamp_to_ms timegm_utc (''2018-06-12T02:18:23+0000''[19 := CHR ''-''])
       = timestamp_to_ms timegm_utc ''2018-06-12T02:18:23+0000''
   \<and> length ''2018-06-12'' \<noteq> 24
   \<and> timestamp_to_ms timegm_utc ''2018-06-12''
       = Inl (APIException ''invalid timestamp from streamerInfo'')
   \<and> substr ''2018-06-12T02:18:23+0100'' 20 4 \<noteq> ''0000''
   \<and> timestamp_to_ms timegm_utc ''2018-06-12T02:18:23+0100''
       = Inl (APIException ''invalid timestamp from streamerInfo'')"
proof -
  have l: "length ''2018-06-12T02:18:23+0000'' = 24" by simp
  have i: "(19::nat) \<in> {4, 7, 10, 13, 16, 19}" by simp
  have s: "length ''2018-06-12'' \<noteq> 24 \<or> substr ''2018-06-12'' 20 4 \<noteq> ''0000''" by simp
  have z: "length ''2018-06-12T02:18:23+0100'' \<noteq> 24
           \<or> substr ''2018-06-12T02:18:23+0100'' 20 4 \<noteq> ''0000''"
    by (simp add: substr_def)
  from timestamp_to_ms_validates_only_length_and_zone
         [of timegm_utc "''2018-06-12T02:18:23+0000''" 19 "CHR ''-''"] l i
  have 1: "timestamp_to_ms timegm_utc (''2018-06-12T02:18:23+0000''[19 := CHR ''-''])
       = timestamp_to_ms timegm_utc ''2018-06-12T02:18:23+0000''" by blast
  from timestamp_to_ms_validates_only_length_and_zone [of timegm_utc "''2018-06-12''"] s
  have 2: "timestamp_to_ms timegm_utc ''2018-06-12''
       = Inl (APIException ''invalid timestamp from streamerInfo'')" by blast
  from timestamp_to_ms_validates_only_length_and_zone
         [of timegm_utc "''2018-06-12T02:18:23+0100''"] z
  have 3: "timestamp_to_ms timegm_utc ''2018-06-12T02:18:23+0100''
       = Inl (APIException ''invalid timestamp from streamerInfo'')" by blast
  have z': "substr ''2018-06-12T02:18:23+0100'' 20 4 \<noteq> ''0000''"
    by (simp add: substr_def)
  from l i z' 1 2 3 show ?thesis by simp
qed

section \<open>Results about the connection\<close>

subsection \<open>Decimal strings and the POST fields\<close>

lemma to_string_nat_digit: "n < 10 \<Longrightarrow> to_string_nat n = [''0123456789'' ! n]"
  by (simp add: to_string_nat.simps)

lemma to_string_small:
  "to_string_nat 0 = ''0''" "to_string_nat 1 = ''1''" "to_string_nat 2 = ''2''"
  "to_string_nat 7 = ''7''"
  "to_string_nat (Suc 0) = ''1''"
  by (subst to_string_nat.simps, simp)+

lemma to_str_long: "to_str (PLong 1) = ''1''" "to_str (PLong 2) = ''2''"
  by (simp_all add: to_str_def to_string_int_def to_string_small)

lemma concat_fields: 
  "flds \<noteq> [] \<Longrightarrow> concat (map (\<lambda>f. fst f @ ''='' @ snd f @ ''&'') flds) = join_fields flds @ ''&''"
  by (induction flds rule: join_fields.induct) simp_all

lemma SET_fields_buffer_join: "SET_fields_buffer flds = join_fields flds"
proof (cases "flds = []")
  case True
  then show ?thesis by (simp add: SET_fields_buffer_def)
next
  case False
  from concat_fields [OF this] show ?thesis
    by (simp add: SET_fields_buffer_def butlast_append)
qed

lemma fields_loop_last:
  assumes "no_amp_eq k" "CHR ''&'' \<notin> set v"
  shows "fields_str_to_map_loop (k @ ''='' @ v) res = res @ [(k, v)]"
proof -
  have a: "\<forall>c \<in> set (k @ ''='' @ v). c \<noteq> CHR ''&''" using assms by (auto simp: no_amp_eq_def)
  have t: "takeWhile (\<lambda>c. c \<noteq> CHR ''&'') (k @ ''='' @ v) = k @ ''='' @ v"
    using a by (simp only: takeWhile_eq_all_conv)
  have d: "dropWhile (\<lambda>c. c \<noteq> CHR ''&'') (k @ ''='' @ v) = []"
    using a by (simp only: dropWhile_eq_Nil_conv)
  have k: "\<forall>c \<in> set k. c \<noteq> CHR ''=''" using assms by (auto simp: no_amp_eq_def)
  have seg: "fields_segment (k @ ''='' @ v) res = res @ [(k, v)]"
    using k by (simp add: fields_segment_def takeWhile_append2 dropWhile_append2)
  show ?thesis
    by (subst fields_str_to_map_loop.simps) (simp only: t d seg, simp)
qed

lemma fields_loop_more:
  assumes "no_amp_eq k" "CHR ''&'' \<notin> set v"
  shows "fields_str_to_map_loop (k @ ''='' @ v @ ''&'' @ w) res = fields_str_to_map_loop w (res @ [(k, v)])"
proof -
  have a: "\<forall>c \<in> set (k @ ''='' @ v). c \<noteq> CHR ''&''" using assms by (auto simp: no_amp_eq_def)
  have e: "k @ ''='' @ v @ ''&'' @ w = (k @ ''='' @ v) @ CHR ''&'' # w" by simp
  have t: "takeWhile (\<lambda>c. c \<noteq> CHR ''&'') (k @ ''='' @ v @ ''&'' @ w) = k @ ''='' @ v"
    unfolding e using a by (subst takeWhile_append2) auto
  have d: "dropWhile (\<lambda>c. c \<noteq> CHR ''&'') (k @ ''='' @ v @ ''&'' @ w) = CHR ''&'' # w"
    unfolding e using a by (subst dropWhile_append2) auto
  have k: "\<forall>c \<in> set k. c \<noteq> CHR ''=''" using assms by (auto simp: no_amp_eq_def)
  have seg: "fields_segment (k @ ''='' @ v) res = res @ [(k, v)]"
    using k by (simp add: fields_segment_def takeWhile_append2 dropWhile_append2)
  show ?thesis
    by (subst fields_str_to_map_loop.simps) (simp only: t d seg, simp)
qed

lemma fields_loop_join:
  "\<forall>f \<in> set flds. no_amp_eq (fst f) \<and> no_amp_eq (snd f) \<Longrightarrow>
     fields_str_to_map_loop (join_fields flds) res = res @ flds"
proof (induction flds arbitrary: res rule: join_fields.induct)
  case 1
  show ?case by (subst fields_str_to_map_loop.simps) (simp add: fields_segment_def)
next
  case (2 f)
  then have "no_amp_eq (fst f)" "CHR ''&'' \<notin> set (snd f)" by (auto simp: no_amp_eq_def)
  from fields_loop_last [OF this] show ?case by simp
next
  case (3 f g fs)
  then have "no_amp_eq (fst f)" "CHR ''&'' \<notin> set (snd f)" by (auto simp: no_amp_eq_def)
  from fields_loop_more [OF this, of "join_fields (g # fs)" res] 3 show ?case by simp
qed

lemma join_last:
  "flds \<noteq> [] \<Longrightarrow> \<forall>f \<in> set flds. no_amp_eq (fst f) \<and> no_amp_eq (snd f) \<Longrightarrow>
     join_fields flds \<noteq> [] \<and> last (join_fields flds) \<noteq> CHR ''&''"
proof (induction flds rule: join_fields.induct)
  case 1
  then show ?case by simp
next
  case (2 f)
  then show ?case by (cases "snd f = []") (auto simp: no_amp_eq_def dest: last_in_set)
next
  case (3 f g fs)
  then show ?case by simp
qed


lemma join_fields_no_nul:
  "\<forall>f \<in> set flds. no_nul (fst f) \<and> no_nul (snd f) \<Longrightarrow> no_nul (join_fields flds)"
  by (induction flds rule: join_fields.induct) (auto simp: no_nul_def)

lemma c_str_no_nul: "no_nul s \<Longrightarrow> c_str s = s"
  by (auto simp: c_str_def no_nul_def takeWhile_eq_all_conv)

subsection \<open>The option setter and sequencing\<close>

lemma set_option_closed:
  "handle c = None \<Longrightarrow> set_option' E opt p c = (Inl (CurlException closed_what), c)"
  by (simp add: set_option'_def)

lemma set_option_Inr_iff:
  "set_option' E opt p c = (Inr u, c') \<longleftrightarrow>
     (\<exists>h. handle c = Some h \<and> setopt_ok E h opt p
          \<and> c' = c\<lparr>handle := Some (h\<lparr>hopts := (hopts h)(opt \<mapsto> p)\<rparr>),
                     options := (options c)(opt \<mapsto> to_str p)\<rparr>)"
  by (auto simp: set_option'_def curl_easy_setopt_def split: option.splits)

lemma set_option_Inl:
  "set_option' E opt p c = (Inl e, c') \<Longrightarrow> c' = c"
  by (auto simp: set_option'_def curl_easy_setopt_def split: option.splits if_splits)

lemma and_then_Inr_iff:
  "and_then r f = (Inr v, c') \<longleftrightarrow> (\<exists>u c1. r = (Inr u, c1) \<and> f c1 = (Inr v, c'))"
  by (cases r) (auto simp: and_then_def split: sum.splits)

lemma fresh_connection_eq:
  "fresh_connection =
     \<lparr>header = None,
      handle = Some \<lparr>hid = 1, hopts = [CURLOPT_NOSIGNAL \<mapsto> PLong 1]\<rparr>,
      options = [CURLOPT_NOSIGNAL \<mapsto> ''1''],
      slists = Map.empty\<rparr>"
  by (simp add: fresh_connection_def CurlConnection_def set_option'_def curl_easy_setopt_def
        accepting_engine_def to_str_long)

lemma SET_fields_buffer_round_trip:
  assumes "\<forall>f \<in> set flds. no_amp_eq (fst f) \<and> no_amp_eq (snd f)"
  shows "fields_str_to_map (SET_fields_buffer flds) = flds"
  using fields_loop_join [OF assms, of "[]"]
  by (simp add: fields_str_to_map_def SET_fields_buffer_join)

lemma SET_fields_installs:
  assumes "flds \<noteq> []" and "SET_fields E flds c = (Inr (), c')"
  shows "options c' CURLOPT_COPYPOSTFIELDS = Some (c_str (SET_fields_buffer flds))
         \<and> applied c' CURLOPT_COPYPOSTFIELDS = Some (PStr (c_str (SET_fields_buffer flds)))"
proof -
  from assms have "set_option' E CURLOPT_COPYPOSTFIELDS (PStr (c_str (SET_fields_buffer flds))) c
                     = (Inr (), c')"
    by (simp add: SET_fields_def split: if_splits)
  then show ?thesis
    by (auto simp: set_option_Inr_iff to_str_def applied_def)
qed

text \<open>
  Claim C5, as amended. For a non-empty field list whose keys and values contain no
  \<open>&\<close>, no \<open>=\<close> and no NUL character, the buffer that \<open>SET_fields\<close> builds is
  \<open>key1=value1&key2=value2&...\<close>, not empty and not ending in \<open>&\<close>; its C string, which
  is what \<open>SET_fields\<close> hands to \<open>set_option\<close> for the POST-fields option on an open
  connection, is that same string; a call that returns leaves exactly it on the handle and
  in the registry; and \<open>fields_str_to_map\<close> decodes it to the original pairs in the
  original order. On an open connection \<open>SET_fields\<close> of the empty list returns normally
  and leaves the connection as it was; the registry is unchanged by it in every case.
\<close>

theorem SET_fields_round_trip:
  "(flds \<noteq> []
      \<and> (\<forall>f \<in> set flds. no_amp_eq (fst f) \<and> no_amp_eq (snd f)
                          \<and> no_nul (fst f) \<and> no_nul (snd f)) \<longrightarrow>
      SET_fields_buffer flds = join_fields flds
      \<and> c_str (SET_fields_buffer flds) = join_fields flds
      \<and> join_fields flds \<noteq> [] \<and> last (join_fields flds) \<noteq> CHR ''&''
      \<and> fields_str_to_map (join_fields flds) = flds
      \<and> (\<not> is_closed c \<longrightarrow>
           SET_fields E flds c
             = set_option' E CURLOPT_COPYPOSTFIELDS (PStr (join_fields flds)) c)
      \<and> (SET_fields E flds c = (Inr (), c') \<longrightarrow>
           options c' CURLOPT_COPYPOSTFIELDS = Some (join_fields flds)
         \<and> applied c' CURLOPT_COPYPOSTFIELDS = Some (PStr (join_fields flds))))
   \<and> (\<not> is_closed c \<longrightarrow> SET_fields E [] c = (Inr (), c))
   \<and> options (snd (SET_fields E [] c)) = options c"
proof -
  have empty: "\<not> is_closed c \<longrightarrow> SET_fields E [] c = (Inr (), c)"
    by (simp add: SET_fields_def)
  have reg: "options (snd (SET_fields E [] c)) = options c"
    by (simp add: SET_fields_def)
  have main: "SET_fields_buffer flds = join_fields flds
      \<and> c_str (SET_fields_buffer flds) = join_fields flds
      \<and> join_fields flds \<noteq> [] \<and> last (join_fields flds) \<noteq> CHR ''&''
      \<and> fields_str_to_map (join_fields flds) = flds
      \<and> (\<not> is_closed c \<longrightarrow>
           SET_fields E flds c
             = set_option' E CURLOPT_COPYPOSTFIELDS (PStr (join_fields flds)) c)
      \<and> (SET_fields E flds c = (Inr (), c') \<longrightarrow>
           options c' CURLOPT_COPYPOSTFIELDS = Some (join_fields flds)
         \<and> applied c' CURLOPT_COPYPOSTFIELDS = Some (PStr (join_fields flds)))"
    if ne: "flds \<noteq> []"
      and all: "\<forall>f \<in> set flds. no_amp_eq (fst f) \<and> no_amp_eq (snd f)
                                 \<and> no_nul (fst f) \<and> no_nul (snd f)"
  proof -
    from all have clean: "\<forall>f \<in> set flds. no_amp_eq (fst f) \<and> no_amp_eq (snd f)"
      and nn: "\<forall>f \<in> set flds. no_nul (fst f) \<and> no_nul (snd f)"
      by auto
    have b: "SET_fields_buffer flds = join_fields flds" by (rule SET_fields_buffer_join)
    have cs: "c_str (SET_fields_buffer flds) = join_fields flds"
      using join_fields_no_nul [OF nn] b by (simp add: c_str_no_nul)
    from join_last [OF ne clean]
    have l: "join_fields flds \<noteq> [] \<and> last (join_fields flds) \<noteq> CHR ''&''" .
    from SET_fields_buffer_round_trip [OF clean] b
    have rt: "fields_str_to_map (join_fields flds) = flds" by simp
    have call: "\<not> is_closed c \<longrightarrow>
           SET_fields E flds c
             = set_option' E CURLOPT_COPYPOSTFIELDS (PStr (join_fields flds)) c"
      using ne cs by (simp add: SET_fields_def)
    have inst: "options c' CURLOPT_COPYPOSTFIELDS = Some (join_fields flds)
         \<and> applied c' CURLOPT_COPYPOSTFIELDS = Some (PStr (join_fields flds))"
      if ok: "SET_fields E flds c = (Inr (), c')"
      using SET_fields_installs [OF ne ok] cs by simp
    from b cs l rt call inst show ?thesis by blast
  qed
  from empty reg main show ?thesis by blast
qed

theorem SET_fields_round_trip_witness:
  "[(''a'', ''1''), (''b'', ''2'')] \<noteq> []
   \<and> no_amp_eq ''a'' \<and> no_amp_eq ''1'' \<and> no_amp_eq ''b'' \<and> no_amp_eq ''2''
   \<and> no_nul ''a'' \<and> no_nul ''1'' \<and> no_nul ''b'' \<and> no_nul ''2''
   \<and> SET_fields_buffer [(''a'', ''1''), (''b'', ''2'')] = ''a=1&b=2''
   \<and> c_str (SET_fields_buffer [(''a'', ''1''), (''b'', ''2'')]) = ''a=1&b=2''
   \<and> fields_str_to_map ''a=1&b=2'' = [(''a'', ''1''), (''b'', ''2'')]
   \<and> \<not> is_closed fresh_connection
   \<and> SET_fields accepting_engine [] fresh_connection = (Inr (), fresh_connection)
   \<and> fst (SET_fields accepting_engine [(''a'', ''1''), (''b'', ''2'')] fresh_connection) = Inr ()
   \<and> options (snd (SET_fields accepting_engine [(''a'', ''1''), (''b'', ''2'')]
                     fresh_connection)) CURLOPT_COPYPOSTFIELDS = Some ''a=1&b=2''"
proof -
  have ne: "[(''a'', ''1''), (''b'', ''2'')] \<noteq> ([] :: (string \<times> string) list)" by simp
  have all: "\<forall>f \<in> set [(''a'', ''1''), (''b'', ''2'')].
               no_amp_eq (fst f) \<and> no_amp_eq (snd f) \<and> no_nul (fst f) \<and> no_nul (snd f)"
    by (simp add: no_amp_eq_def no_nul_def)
  have ok: "fst (SET_fields accepting_engine [(''a'', ''1''), (''b'', ''2'')] fresh_connection)
              = Inr ()"
    by (simp add: SET_fields_def is_closed_def fresh_connection_eq set_option'_def
          curl_easy_setopt_def accepting_engine_def)
  then have run: "SET_fields accepting_engine [(''a'', ''1''), (''b'', ''2'')] fresh_connection
      = (Inr (), snd (SET_fields accepting_engine [(''a'', ''1''), (''b'', ''2'')]
                        fresh_connection))"
    by (simp add: prod_eq_iff)
  have op: "\<not> is_closed fresh_connection"
    by (simp add: is_closed_def fresh_connection_eq)
  have j: "join_fields [(''a'', ''1''), (''b'', ''2'')] = ''a=1&b=2''" by simp
  from SET_fields_round_trip
         [of "[(''a'', ''1''), (''b'', ''2'')]" fresh_connection accepting_engine
             "snd (SET_fields accepting_engine [(''a'', ''1''), (''b'', ''2'')] fresh_connection)"]
       ne all op run
  have "SET_fields_buffer [(''a'', ''1''), (''b'', ''2'')] = join_fields [(''a'', ''1''), (''b'', ''2'')]"
    and "c_str (SET_fields_buffer [(''a'', ''1''), (''b'', ''2'')])
           = join_fields [(''a'', ''1''), (''b'', ''2'')]"
    and "fields_str_to_map (join_fields [(''a'', ''1''), (''b'', ''2'')])
           = [(''a'', ''1''), (''b'', ''2'')]"
    and "SET_fields accepting_engine [] fresh_connection = (Inr (), fresh_connection)"
    and "options (snd (SET_fields accepting_engine [(''a'', ''1''), (''b'', ''2'')]
                     fresh_connection)) CURLOPT_COPYPOSTFIELDS
           = Some (join_fields [(''a'', ''1''), (''b'', ''2'')])"
    by blast+
  with ne op ok show ?thesis
    unfolding j by (simp add: no_amp_eq_def no_nul_def)
qed

text \<open>
  Counterexample to C5 as it is stated: the one pair with key "a" and the three-character
  value 1, NUL, 2 is a non-empty list without \<open>&\<close> and \<open>=\<close>. The buffer built for it
  has five characters, but \<open>SET_fields\<close> passes \<open>s.c_str()\<close>, which ends at the NUL: the
  call returns, handle and registry hold "a=1", and that decodes to the pair (a, 1), not to
  the pair that went in.
\<close>

theorem SET_fields_round_trip_counterexample:
  "nul_value_fields \<noteq> []
   \<and> no_amp_eq (fst (hd nul_value_fields)) \<and> no_amp_eq (snd (hd nul_value_fields))
   \<and> length nul_value_fields = 1
   \<and> SET_fields_buffer nul_value_fields = [CHR ''a'', CHR ''='', CHR ''1'', CHR 0x00, CHR ''2'']
   \<and> fst (SET_fields accepting_engine nul_value_fields fresh_connection) = Inr ()
   \<and> options (snd (SET_fields accepting_engine nul_value_fields fresh_connection))
        CURLOPT_COPYPOSTFIELDS = Some ''a=1''
   \<and> applied (snd (SET_fields accepting_engine nul_value_fields fresh_connection))
        CURLOPT_COPYPOSTFIELDS = Some (PStr ''a=1'')
   \<and> fields_str_to_map ''a=1'' = [(''a'', ''1'')]
   \<and> fields_str_to_map ''a=1'' \<noteq> nul_value_fields"
proof -
  have b: "SET_fields_buffer nul_value_fields
             = [CHR ''a'', CHR ''='', CHR ''1'', CHR 0x00, CHR ''2'']"
    by (simp add: nul_value_fields_def SET_fields_buffer_def)
  have cs: "c_str [CHR ''a'', CHR ''='', CHR ''1'', CHR 0x00, CHR ''2''] = ''a=1''"
    by (simp add: c_str_def)
  have run: "SET_fields accepting_engine nul_value_fields fresh_connection
      = (Inr (), fresh_connection
           \<lparr>handle := Some \<lparr>hid = 1, hopts = [CURLOPT_NOSIGNAL \<mapsto> PLong 1,
                                               CURLOPT_COPYPOSTFIELDS \<mapsto> PStr ''a=1'']\<rparr>,
            options := [CURLOPT_NOSIGNAL \<mapsto> ''1'', CURLOPT_COPYPOSTFIELDS \<mapsto> ''a=1'']\<rparr>)"
    unfolding SET_fields_def b cs
    by (simp add: is_closed_def fresh_connection_eq set_option'_def curl_easy_setopt_def
          accepting_engine_def to_str_def nul_value_fields_def)
  have "\<forall>f \<in> set [(''a'', ''1'')]. no_amp_eq (fst f) \<and> no_amp_eq (snd f)"
    by (simp add: no_amp_eq_def)
  from fields_loop_join [OF this, of "[]"]
  have d: "fields_str_to_map ''a=1'' = [(''a'', ''1'')]"
    by (simp add: fields_str_to_map_def)
  have ne: "nul_value_fields \<noteq> []" "length nul_value_fields = 1"
    "no_amp_eq (fst (hd nul_value_fields))" "no_amp_eq (snd (hd nul_value_fields))"
    "[(''a'', ''1'')] \<noteq> nul_value_fields"
    by (simp_all add: nul_value_fields_def no_amp_eq_def)
  show ?thesis
    unfolding run d using b ne by (simp add: applied_def)
qed

subsection \<open>Closing\<close>

lemma and_then_closed:
  "and_then (Inl e, c) f = (Inl e, c)"
  by (simp add: and_then_def)

lemmas closed_simps =
  set_option_closed and_then_closed SET_url_def SET_ssl_verify_def
  SET_ssl_verify_using_ca_bundle_def SET_ssl_verify_using_ca_certs_def SET_encoding_def
  SET_keepalive_def SET_fields_def ADD_headers_def execute_def is_closed_def

lemma close_fields:
  "header (close c) = None" "handle (close c) = None" "options (close c) = Map.empty"
  "slists (close c) = curl_slist_free_all (slists c) (header c)"
  by (auto simp: close_def Let_def curl_slist_free_all_def)

lemma close_close: "close (close c) = close c"
  by (simp add: close_def Let_def curl_slist_free_all_def)

text \<open>
  Claim C2. \<open>close\<close> frees the header list, leaves header pointer and handle null and the
  registry empty; a second \<open>close\<close> (also the one of the destructor) changes nothing, and
  \<open>close\<close> cannot throw. On a connection whose handle is null, \<open>execute\<close>,
  \<open>ADD_headers\<close>, \<open>SET_fields\<close> and every \<open>SET_\<close> primitive (and \<open>set_option\<close> itself)
  throw \<open>CurlException("connection/handle has been closed")\<close> and leave the object as it
  was.
\<close>

theorem close_idempotent_and_use_after_close:
  "header (close c) = None \<and> handle (close c) = None \<and> options (close c) = Map.empty
   \<and> slists (close c) = curl_slist_free_all (slists c) (header c)
   \<and> close (close c) = close c \<and> destructor (close c) = close c
   \<and> (handle c = None \<longrightarrow>
        execute E x c = (Inl (CurlException closed_what), c)
      \<and> ADD_headers E hs c = (Inl (CurlException closed_what), c)
      \<and> SET_fields E flds c = (Inl (CurlException closed_what), c)
      \<and> SET_url E url c = (Inl (CurlException closed_what), c)
      \<and> SET_ssl_verify E c = (Inl (CurlException closed_what), c)
      \<and> SET_ssl_verify_using_ca_bundle E path c = (Inl (CurlException closed_what), c)
      \<and> SET_ssl_verify_using_ca_certs E dir c = (Inl (CurlException closed_what), c)
      \<and> SET_encoding E enc c = (Inl (CurlException closed_what), c)
      \<and> SET_keepalive E c = (Inl (CurlException closed_what), c)
      \<and> set_option' E opt p c = (Inl (CurlException closed_what), c))"
proof -
  have misuse: "execute E x c = (Inl (CurlException closed_what), c)
      \<and> ADD_headers E hs c = (Inl (CurlException closed_what), c)
      \<and> SET_fields E flds c = (Inl (CurlException closed_what), c)
      \<and> SET_url E url c = (Inl (CurlException closed_what), c)
      \<and> SET_ssl_verify E c = (Inl (CurlException closed_what), c)
      \<and> SET_ssl_verify_using_ca_bundle E path c = (Inl (CurlException closed_what), c)
      \<and> SET_ssl_verify_using_ca_certs E dir c = (Inl (CurlException closed_what), c)
      \<and> SET_encoding E enc c = (Inl (CurlException closed_what), c)
      \<and> SET_keepalive E c = (Inl (CurlException closed_what), c)
      \<and> set_option' E opt p c = (Inl (CurlException closed_what), c)"
    if "handle c = None"
    using that by (simp add: closed_simps)
  from misuse close_fields [of c] close_close [of c] show ?thesis
    by (simp add: destructor_def)
qed

theorem close_idempotent_and_use_after_close_witness:
  "handle (close fresh_connection) = None
   \<and> close (close fresh_connection) = close fresh_connection
   \<and> SET_url accepting_engine ''https://example.test/api'' (close fresh_connection)
       = (Inl (CurlException ''connection/handle has been closed''), close fresh_connection)
   \<and> ADD_headers accepting_engine [(''A'', ''1'')] (close fresh_connection)
       = (Inl (CurlException ''connection/handle has been closed''), close fresh_connection)"
proof -
  have h: "handle (close fresh_connection) = None" by (rule close_fields)
  from close_idempotent_and_use_after_close [where c = fresh_connection]
  have i: "close (close fresh_connection) = close fresh_connection" by blast
  from close_idempotent_and_use_after_close
         [where c = "close fresh_connection" and E = accepting_engine
            and hs = "[(''A'', ''1'')]" and url = "''https://example.test/api''"] h
  have "SET_url accepting_engine ''https://example.test/api'' (close fresh_connection)
       = (Inl (CurlException closed_what), close fresh_connection)"
    and "ADD_headers accepting_engine [(''A'', ''1'')] (close fresh_connection)
       = (Inl (CurlException closed_what), close fresh_connection)"
    by blast+
  with h i show ?thesis by (simp add: closed_what_def)
qed

subsection \<open>execute\<close>

lemma deliver_concat: "deliver cs buf = buf @ concat cs"
  by (induction cs arbitrary: buf) (simp_all add: WriteCallback_write_def)

text \<open>
  Claim C3. On an open connection whose engine accepts the two bindings, \<open>execute\<close> records
  the write callback and the fresh (empty) sink on handle and registry, performs the
  request, reads the clock, and then throws \<open>CurlConnectionError\<close> with exactly the
  engine's code when that code is not \<open>CURLE_OK\<close>, returning nothing of the sink;
  otherwise it returns the response code the engine reports, the concatenation of the
  delivered chunks and the clock reading. The response code plays no part in the choice:
  any value, 2xx or not, is returned as data.
\<close>

theorem execute_outcome:
  assumes "handle c = Some h"
    and "setopt_ok E h CURLOPT_WRITEFUNCTION (PPtr (Some (write_addr x)))"
    and "setopt_ok E (h\<lparr>hopts := (hopts h)(CURLOPT_WRITEFUNCTION \<mapsto> PPtr (Some (write_addr x)))\<rparr>)
           CURLOPT_WRITEDATA (PPtr (Some (cb_addr x)))"
  shows "execute E x c =
    ((if ccode x \<noteq> 0 then Inl (CurlConnectionError (ccode x))
      else Inr (response_code x, concat (chunks x), now_after x)),
     c\<lparr>handle := Some (h\<lparr>hopts := (hopts h)
                    (CURLOPT_WRITEFUNCTION \<mapsto> PPtr (Some (write_addr x)),
                     CURLOPT_WRITEDATA \<mapsto> PPtr (Some (cb_addr x)))\<rparr>),
       options := (options c)
                    (CURLOPT_WRITEFUNCTION \<mapsto> to_string_nat (write_addr x),
                     CURLOPT_WRITEDATA \<mapsto> to_string_nat (cb_addr x))\<rparr>)"
  using assms
  by (simp add: execute_def set_option'_def curl_easy_setopt_def and_then_def deliver_concat
        to_str_def Let_def)


theorem execute_outcome_witness:
  "handle fresh_connection = Some \<lparr>hid = 1, hopts = [CURLOPT_NOSIGNAL \<mapsto> PLong 1]\<rparr>
   \<and> fst (execute accepting_engine not_found_reply fresh_connection)
       = Inr (404, ''Not Found'', 17)
   \<and> fst (execute accepting_engine timeout_reply fresh_connection)
       = Inl (CurlConnectionError 28)"
proof -
  have h: "handle fresh_connection = Some \<lparr>hid = 1, hopts = [CURLOPT_NOSIGNAL \<mapsto> PLong 1]\<rparr>"
    by (simp add: fresh_connection_eq)
  have ok: "setopt_ok accepting_engine h' opt p" for h' opt p
    by (simp add: accepting_engine_def)
  from execute_outcome [OF h ok ok, of not_found_reply]
  have a: "fst (execute accepting_engine not_found_reply fresh_connection)
             = Inr (404, ''Not Found'', 17)"
    by (simp add: not_found_reply_def)
  from execute_outcome [OF h ok ok, of timeout_reply]
  have b: "fst (execute accepting_engine timeout_reply fresh_connection)
             = Inl (CurlConnectionError 28)"
    by (simp add: timeout_reply_def)
  from h a b show ?thesis by simp
qed

subsection \<open>Construction profiles\<close>

lemma and_then_Inr: "and_then (Inr v, c) f = f c"
  by (simp add: and_then_def)

lemma setopt_applied:
  "set_option' E opt p c = (Inr u, c') \<Longrightarrow> applied c' = (applied c)(opt \<mapsto> p)"
  by (auto simp: set_option_Inr_iff applied_def)

lemma setopt_accepted:
  assumes "\<forall>h opt p. setopt_ok E h opt p" and "handle c \<noteq> None"
  shows "\<exists>c'. set_option' E opt p c = (Inr (), c') \<and> handle c' \<noteq> None"
  using assms by (auto simp: set_option'_def curl_easy_setopt_def)

lemma CurlConnection_applied:
  "CurlConnection E ha hp = (Inr u, c) \<Longrightarrow> applied c = [CURLOPT_NOSIGNAL \<mapsto> PLong 1]"
  by (auto simp: CurlConnection_def set_option_Inr_iff applied_def)

lemma CurlConnection_url_applied:
  "CurlConnection_url E ha hp url = (Inr u, c) \<Longrightarrow>
     applied c = [CURLOPT_NOSIGNAL \<mapsto> PLong 1, CURLOPT_URL \<mapsto> PStr (c_str url)]"
  by (auto simp: CurlConnection_url_def SET_url_def and_then_Inr_iff
           dest!: CurlConnection_applied setopt_applied)

lemma SET_ssl_verify_applied:
  "SET_ssl_verify E c = (Inr u, c') \<Longrightarrow>
     applied c' = (applied c)(CURLOPT_SSL_VERIFYPEER \<mapsto> PLong 1, CURLOPT_SSL_VERIFYHOST \<mapsto> PLong 2)"
  by (auto simp: SET_ssl_verify_def and_then_Inr_iff dest!: setopt_applied)

lemma HTTPSConnection_applied:
  "HTTPSConnection E ha hp = (Inr u, c) \<Longrightarrow>
     applied c = [CURLOPT_NOSIGNAL \<mapsto> PLong 1,
                  CURLOPT_SSL_VERIFYPEER \<mapsto> PLong 1, CURLOPT_SSL_VERIFYHOST \<mapsto> PLong 2]"
  by (auto simp: HTTPSConnection_def and_then_Inr_iff
           dest!: CurlConnection_applied SET_ssl_verify_applied)

lemma HTTPSConnection_url_applied:
  "HTTPSConnection_url E ha hp url = (Inr u, c) \<Longrightarrow>
     applied c = [CURLOPT_NOSIGNAL \<mapsto> PLong 1, CURLOPT_URL \<mapsto> PStr (c_str url),
                  CURLOPT_SSL_VERIFYPEER \<mapsto> PLong 1, CURLOPT_SSL_VERIFYHOST \<mapsto> PLong 2]"
  by (auto simp: HTTPSConnection_url_def and_then_Inr_iff
           dest!: CurlConnection_url_applied SET_ssl_verify_applied)

lemma method_profile_applied:
  assumes "and_then (and_then (and_then r (set_option' E m (PLong 1)))
             (SET_encoding E DEFAULT_ENCODING)) (SET_keepalive E) = (Inr u, c)"
    and "\<And>v c0. r = (Inr v, c0) \<Longrightarrow> applied c0 = base"
  shows "applied c = base(m \<mapsto> PLong 1, CURLOPT_ACCEPT_ENCODING \<mapsto> PStr ''gzip'',
                         CURLOPT_TCP_KEEPALIVE \<mapsto> PLong 1)"
proof -
  from assms(1) obtain v0 c0 u1 c1 u2 c2 where
    r: "r = (Inr v0, c0)" and
    m: "set_option' E m (PLong 1) c0 = (Inr u1, c1)" and
    e: "SET_encoding E DEFAULT_ENCODING c1 = (Inr u2, c2)" and
    k: "SET_keepalive E c2 = (Inr u, c)"
    by (auto simp: and_then_Inr_iff)
  from assms(2) [OF r] setopt_applied [OF m]
  have 1: "applied c1 = base(m \<mapsto> PLong 1)" by simp
  from e have "applied c2 = (applied c1)(CURLOPT_ACCEPT_ENCODING \<mapsto> PStr ''gzip'')"
    by (auto simp: SET_encoding_def DEFAULT_ENCODING_def c_str_def dest!: setopt_applied)
  moreover from k have "applied c = (applied c2)(CURLOPT_TCP_KEEPALIVE \<mapsto> PLong 1)"
    by (auto simp: SET_keepalive_def dest!: setopt_applied)
  ultimately show ?thesis using 1 by simp
qed

lemma method_profile_accepted:
  assumes acc: "\<forall>h opt p. setopt_ok E h opt p"
    and r: "\<exists>c0. r = (Inr (), c0) \<and> handle c0 \<noteq> None"
  shows "\<exists>c. and_then (and_then (and_then r (set_option' E m (PLong 1)))
             (SET_encoding E DEFAULT_ENCODING)) (SET_keepalive E) = (Inr (), c)
          \<and> handle c \<noteq> None"
proof -
  from r obtain c0 where c0: "r = (Inr (), c0)" "handle c0 \<noteq> None" by blast
  from setopt_accepted [OF acc c0(2)] obtain c1 where
    c1: "set_option' E m (PLong 1) c0 = (Inr (), c1)" "handle c1 \<noteq> None" by blast
  from setopt_accepted [OF acc c1(2)] obtain c2 where
    c2: "SET_encoding E DEFAULT_ENCODING c1 = (Inr (), c2)" "handle c2 \<noteq> None"
    unfolding SET_encoding_def by blast
  from setopt_accepted [OF acc c2(2)] obtain c3 where
    c3: "SET_keepalive E c2 = (Inr (), c3)" "handle c3 \<noteq> None"
    unfolding SET_keepalive_def by blast
  from c0 c1 c2 c3 show ?thesis by (simp add: and_then_Inr)
qed

lemma SET_ssl_verify_accepted:
  assumes acc: "\<forall>h opt p. setopt_ok E h opt p"
    and r: "\<exists>c0. r = (Inr (), c0) \<and> handle c0 \<noteq> None"
  shows "\<exists>c. and_then r (SET_ssl_verify E) = (Inr (), c) \<and> handle c \<noteq> None"
proof -
  from r obtain c0 where c0: "r = (Inr (), c0)" "handle c0 \<noteq> None" by blast
  from setopt_accepted [OF acc c0(2)] obtain c1 where
    c1: "set_option' E CURLOPT_SSL_VERIFYPEER (PLong 1) c0 = (Inr (), c1)" "handle c1 \<noteq> None"
    by blast
  from setopt_accepted [OF acc c1(2)] obtain c2 where
    c2: "set_option' E CURLOPT_SSL_VERIFYHOST (PLong 2) c1 = (Inr (), c2)" "handle c2 \<noteq> None"
    by blast
  from c0 c1 c2 show ?thesis by (simp add: and_then_Inr SET_ssl_verify_def)
qed

lemma CurlConnection_accepted:
  assumes acc: "\<forall>h opt p. setopt_ok E h opt p"
  shows "\<exists>c. CurlConnection E (Some a) hp = (Inr (), c) \<and> handle c \<noteq> None"
  unfolding CurlConnection_def by (rule setopt_accepted [OF acc]) simp

lemma CurlConnection_url_accepted:
  assumes acc: "\<forall>h opt p. setopt_ok E h opt p"
  shows "\<exists>c. CurlConnection_url E (Some a) hp url = (Inr (), c) \<and> handle c \<noteq> None"
proof -
  from CurlConnection_accepted [OF acc] obtain c0 where
    c0: "CurlConnection E (Some a) hp = (Inr (), c0)" "handle c0 \<noteq> None" by blast
  from setopt_accepted [OF acc c0(2)] obtain c1 where
    "SET_url E url c0 = (Inr (), c1)" "handle c1 \<noteq> None"
    unfolding SET_url_def by blast
  with c0 show ?thesis by (simp add: CurlConnection_url_def and_then_Inr)
qed


text \<open>
  Claim C7. Whenever a constructor of a variant completes, the options applied to the
  native handle are exactly its profile. \<open>SET_ssl_verify\<close> sets verify-peer to 1 and
  verify-host to 2; the Secure constructors add these to the baseline no-signal option;
  the Get constructors add HTTP-GET = 1, accepted encoding "gzip" and TCP keep-alive = 1;
  the Post constructors add HTTP-POST = 1, "gzip" and keep-alive. The form taking a URL has
  the URL option applied as well, the bare form has it unset. With an engine that accepts
  every option and a non-null handle, all six constructors complete.
\<close>

theorem variant_constructor_profiles:
  "(SET_ssl_verify E c0 = (Inr (), c) \<longrightarrow>
      applied c = (applied c0)(CURLOPT_SSL_VERIFYPEER \<mapsto> PLong 1,
                               CURLOPT_SSL_VERIFYHOST \<mapsto> PLong 2))
   \<and> (HTTPSConnection E ha hp = (Inr (), c) \<longrightarrow>
      applied c = [CURLOPT_NOSIGNAL \<mapsto> PLong 1,
                   CURLOPT_SSL_VERIFYPEER \<mapsto> PLong 1, CURLOPT_SSL_VERIFYHOST \<mapsto> PLong 2]
      \<and> applied c CURLOPT_URL = None)
   \<and> (HTTPSConnection_url E ha hp url = (Inr (), c) \<longrightarrow>
      applied c = [CURLOPT_NOSIGNAL \<mapsto> PLong 1, CURLOPT_URL \<mapsto> PStr (c_str url),
                   CURLOPT_SSL_VERIFYPEER \<mapsto> PLong 1, CURLOPT_SSL_VERIFYHOST \<mapsto> PLong 2])
   \<and> (HTTPSGetConnection E ha hp = (Inr (), c) \<longrightarrow>
      applied c = [CURLOPT_NOSIGNAL \<mapsto> PLong 1,
                   CURLOPT_SSL_VERIFYPEER \<mapsto> PLong 1, CURLOPT_SSL_VERIFYHOST \<mapsto> PLong 2,
                   CURLOPT_HTTPGET \<mapsto> PLong 1, CURLOPT_ACCEPT_ENCODING \<mapsto> PStr ''gzip'',
                   CURLOPT_TCP_KEEPALIVE \<mapsto> PLong 1]
      \<and> applied c CURLOPT_URL = None)
   \<and> (HTTPSGetConnection_url E ha hp url = (Inr (), c) \<longrightarrow>
      applied c = [CURLOPT_NOSIGNAL \<mapsto> PLong 1, CURLOPT_URL \<mapsto> PStr (c_str url),
                   CURLOPT_SSL_VERIFYPEER \<mapsto> PLong 1, CURLOPT_SSL_VERIFYHOST \<mapsto> PLong 2,
                   CURLOPT_HTTPGET \<mapsto> PLong 1, CURLOPT_ACCEPT_ENCODING \<mapsto> PStr ''gzip'',
                   CURLOPT_TCP_KEEPALIVE \<mapsto> PLong 1])
   \<and> (HTTPSPostConnection E ha hp = (Inr (), c) \<longrightarrow>
      applied c = [CURLOPT_NOSIGNAL \<mapsto> PLong 1,
                   CURLOPT_SSL_VERIFYPEER \<mapsto> PLong 1, CURLOPT_SSL_VERIFYHOST \<mapsto> PLong 2,
                   CURLOPT_POST \<mapsto> PLong 1, CURLOPT_ACCEPT_ENCODING \<mapsto> PStr ''gzip'',
                   CURLOPT_TCP_KEEPALIVE \<mapsto> PLong 1]
      \<and> applied c CURLOPT_URL = None)
   \<and> (HTTPSPostConnection_url E ha hp url = (Inr (), c) \<longrightarrow>
      applied c = [CURLOPT_NOSIGNAL \<mapsto> PLong 1, CURLOPT_URL \<mapsto> PStr (c_str url),
                   CURLOPT_SSL_VERIFYPEER \<mapsto> PLong 1, CURLOPT_SSL_VERIFYHOST \<mapsto> PLong 2,
                   CURLOPT_POST \<mapsto> PLong 1, CURLOPT_ACCEPT_ENCODING \<mapsto> PStr ''gzip'',
                   CURLOPT_TCP_KEEPALIVE \<mapsto> PLong 1])
   \<and> ((\<forall>h opt p. setopt_ok E h opt p) \<longrightarrow>
        (\<exists>c1. HTTPSConnection E (Some a) hp = (Inr (), c1))
      \<and> (\<exists>c1. HTTPSConnection_url E (Some a) hp url = (Inr (), c1))
      \<and> (\<exists>c1. HTTPSGetConnection E (Some a) hp = (Inr (), c1))
      \<and> (\<exists>c1. HTTPSGetConnection_url E (Some a) hp url = (Inr (), c1))
      \<and> (\<exists>c1. HTTPSPostConnection E (Some a) hp = (Inr (), c1))
      \<and> (\<exists>c1. HTTPSPostConnection_url E (Some a) hp url = (Inr (), c1)))"
proof -
  have ssl: "SET_ssl_verify E c0 = (Inr (), c) \<longrightarrow>
      applied c = (applied c0)(CURLOPT_SSL_VERIFYPEER \<mapsto> PLong 1,
                               CURLOPT_SSL_VERIFYHOST \<mapsto> PLong 2)"
    by (blast dest: SET_ssl_verify_applied)
  have s0: "HTTPSConnection E ha hp = (Inr (), c) \<longrightarrow>
      applied c = [CURLOPT_NOSIGNAL \<mapsto> PLong 1,
                   CURLOPT_SSL_VERIFYPEER \<mapsto> PLong 1, CURLOPT_SSL_VERIFYHOST \<mapsto> PLong 2]
      \<and> applied c CURLOPT_URL = None"
    by (auto dest!: HTTPSConnection_applied)
  have s1: "HTTPSConnection_url E ha hp url = (Inr (), c) \<longrightarrow>
      applied c = [CURLOPT_NOSIGNAL \<mapsto> PLong 1, CURLOPT_URL \<mapsto> PStr (c_str url),
                   CURLOPT_SSL_VERIFYPEER \<mapsto> PLong 1, CURLOPT_SSL_VERIFYHOST \<mapsto> PLong 2]"
    by (blast dest: HTTPSConnection_url_applied)
  have g0: "HTTPSGetConnection E ha hp = (Inr (), c) \<longrightarrow>
      applied c = [CURLOPT_NOSIGNAL \<mapsto> PLong 1,
                   CURLOPT_SSL_VERIFYPEER \<mapsto> PLong 1, CURLOPT_SSL_VERIFYHOST \<mapsto> PLong 2,
                   CURLOPT_HTTPGET \<mapsto> PLong 1, CURLOPT_ACCEPT_ENCODING \<mapsto> PStr ''gzip'',
                   CURLOPT_TCP_KEEPALIVE \<mapsto> PLong 1]
      \<and> applied c CURLOPT_URL = None"
    unfolding HTTPSGetConnection_def
    by (auto dest!: method_profile_applied [OF _ HTTPSConnection_applied])
  have g1: "HTTPSGetConnection_url E ha hp url = (Inr (), c) \<longrightarrow>
      applied c = [CURLOPT_NOSIGNAL \<mapsto> PLong 1, CURLOPT_URL \<mapsto> PStr (c_str url),
                   CURLOPT_SSL_VERIFYPEER \<mapsto> PLong 1, CURLOPT_SSL_VERIFYHOST \<mapsto> PLong 2,
                   CURLOPT_HTTPGET \<mapsto> PLong 1, CURLOPT_ACCEPT_ENCODING \<mapsto> PStr ''gzip'',
                   CURLOPT_TCP_KEEPALIVE \<mapsto> PLong 1]"
    unfolding HTTPSGetConnection_url_def
    by (auto dest!: method_profile_applied [OF _ HTTPSConnection_url_applied])
  have p0: "HTTPSPostConnection E ha hp = (Inr (), c) \<longrightarrow>
      applied c = [CURLOPT_NOSIGNAL \<mapsto> PLong 1,
                   CURLOPT_SSL_VERIFYPEER \<mapsto> PLong 1, CURLOPT_SSL_VERIFYHOST \<mapsto> PLong 2,
                   CURLOPT_POST \<mapsto> PLong 1, CURLOPT_ACCEPT_ENCODING \<mapsto> PStr ''gzip'',
                   CURLOPT_TCP_KEEPALIVE \<mapsto> PLong 1]
      \<and> applied c CURLOPT_URL = None"
    unfolding HTTPSPostConnection_def
    by (auto dest!: method_profile_applied [OF _ HTTPSConnection_applied])
  have p1: "HTTPSPostConnection_url E ha hp url = (Inr (), c) \<longrightarrow>
      applied c = [CURLOPT_NOSIGNAL \<mapsto> PLong 1, CURLOPT_URL \<mapsto> PStr (c_str url),
                   CURLOPT_SSL_VERIFYPEER \<mapsto> PLong 1, CURLOPT_SSL_VERIFYHOST \<mapsto> PLong 2,
                   CURLOPT_POST \<mapsto> PLong 1, CURLOPT_ACCEPT_ENCODING \<mapsto> PStr ''gzip'',
                   CURLOPT_TCP_KEEPALIVE \<mapsto> PLong 1]"
    unfolding HTTPSPostConnection_url_def
    by (auto dest!: method_profile_applied [OF _ HTTPSConnection_url_applied])
  have ex: "(\<exists>c1. HTTPSConnection E (Some a) hp = (Inr (), c1))
      \<and> (\<exists>c1. HTTPSConnection_url E (Some a) hp url = (Inr (), c1))
      \<and> (\<exists>c1. HTTPSGetConnection E (Some a) hp = (Inr (), c1))
      \<and> (\<exists>c1. HTTPSGetConnection_url E (Some a) hp url = (Inr (), c1))
      \<and> (\<exists>c1. HTTPSPostConnection E (Some a) hp = (Inr (), c1))
      \<and> (\<exists>c1. HTTPSPostConnection_url E (Some a) hp url = (Inr (), c1))"
    if acc: "\<forall>h opt p. setopt_ok E h opt p"
  proof -
    have b0: "\<exists>c1. HTTPSConnection E (Some a) hp = (Inr (), c1) \<and> handle c1 \<noteq> None"
      unfolding HTTPSConnection_def
      by (rule SET_ssl_verify_accepted [OF acc CurlConnection_accepted [OF acc]])
    have b1: "\<exists>c1. HTTPSConnection_url E (Some a) hp url = (Inr (), c1) \<and> handle c1 \<noteq> None"
      unfolding HTTPSConnection_url_def
      by (rule SET_ssl_verify_accepted [OF acc CurlConnection_url_accepted [OF acc]])
    from method_profile_accepted [OF acc b0, of CURLOPT_HTTPGET]
         method_profile_accepted [OF acc b1, of CURLOPT_HTTPGET]
         method_profile_accepted [OF acc b0, of CURLOPT_POST]
         method_profile_accepted [OF acc b1, of CURLOPT_POST] b0 b1
    show ?thesis
      unfolding HTTPSGetConnection_def HTTPSGetConnection_url_def
        HTTPSPostConnection_def HTTPSPostConnection_url_def
      by blast
  qed
  from ssl s0 s1 g0 g1 p0 p1 ex show ?thesis by blast
qed

theorem variant_constructor_profiles_witness:
  "(\<forall>h opt p. setopt_ok accepting_engine h opt p)
   \<and> (\<exists>c. HTTPSPostConnection_url accepting_engine (Some 1) Map.empty
              ''https://example.test/api'' = (Inr (), c)
          \<and> applied c CURLOPT_SSL_VERIFYPEER = Some (PLong 1)
          \<and> applied c CURLOPT_SSL_VERIFYHOST = Some (PLong 2)
          \<and> applied c CURLOPT_POST = Some (PLong 1)
          \<and> applied c CURLOPT_HTTPGET = None
          \<and> applied c CURLOPT_ACCEPT_ENCODING = Some (PStr ''gzip'')
          \<and> applied c CURLOPT_TCP_KEEPALIVE = Some (PLong 1)
          \<and> applied c CURLOPT_URL = Some (PStr ''https://example.test/api''))
   \<and> (\<exists>c. HTTPSGetConnection accepting_engine (Some 1) Map.empty = (Inr (), c)
          \<and> applied c CURLOPT_HTTPGET = Some (PLong 1)
          \<and> applied c CURLOPT_URL = None)"
proof -
  have acc: "\<forall>h opt p. setopt_ok accepting_engine h opt p"
    by (simp add: accepting_engine_def)
  have u: "c_str ''https://example.test/api'' = ''https://example.test/api''"
    by (simp add: c_str_def)
  from variant_constructor_profiles
         [where E = accepting_engine and a = 1 and hp = Map.empty
            and url = "''https://example.test/api''"] acc
  obtain c where c: "HTTPSPostConnection_url accepting_engine (Some 1) Map.empty
              ''https://example.test/api'' = (Inr (), c)" by blast
  from variant_constructor_profiles
         [where E = accepting_engine and ha = "Some 1" and hp = Map.empty and c = c
            and url = "''https://example.test/api''"] c
  have pc: "applied c = [CURLOPT_NOSIGNAL \<mapsto> PLong 1,
                   CURLOPT_URL \<mapsto> PStr (c_str ''https://example.test/api''),
                   CURLOPT_SSL_VERIFYPEER \<mapsto> PLong 1, CURLOPT_SSL_VERIFYHOST \<mapsto> PLong 2,
                   CURLOPT_POST \<mapsto> PLong 1, CURLOPT_ACCEPT_ENCODING \<mapsto> PStr ''gzip'',
                   CURLOPT_TCP_KEEPALIVE \<mapsto> PLong 1]" by blast
  from variant_constructor_profiles
         [where E = accepting_engine and a = 1 and hp = Map.empty] acc
  obtain g where g: "HTTPSGetConnection accepting_engine (Some 1) Map.empty = (Inr (), g)"
    by blast
  from variant_constructor_profiles
         [where E = accepting_engine and ha = "Some 1" and hp = Map.empty and c = g] g
  have pg: "applied g = [CURLOPT_NOSIGNAL \<mapsto> PLong 1,
                   CURLOPT_SSL_VERIFYPEER \<mapsto> PLong 1, CURLOPT_SSL_VERIFYHOST \<mapsto> PLong 2,
                   CURLOPT_HTTPGET \<mapsto> PLong 1, CURLOPT_ACCEPT_ENCODING \<mapsto> PStr ''gzip'',
                   CURLOPT_TCP_KEEPALIVE \<mapsto> PLong 1]" by blast
  have "\<exists>c. HTTPSPostConnection_url accepting_engine (Some 1) Map.empty
              ''https://example.test/api'' = (Inr (), c)
          \<and> applied c CURLOPT_SSL_VERIFYPEER = Some (PLong 1)
          \<and> applied c CURLOPT_SSL_VERIFYHOST = Some (PLong 2)
          \<and> applied c CURLOPT_POST = Some (PLong 1)
          \<and> applied c CURLOPT_HTTPGET = None
          \<and> applied c CURLOPT_ACCEPT_ENCODING = Some (PStr ''gzip'')
          \<and> applied c CURLOPT_TCP_KEEPALIVE = Some (PLong 1)
          \<and> applied c CURLOPT_URL = Some (PStr ''https://example.test/api'')"
    using c pc u by simp
  moreover have "\<exists>c. HTTPSGetConnection accepting_engine (Some 1) Map.empty = (Inr (), c)
          \<and> applied c CURLOPT_HTTPGET = Some (PLong 1)
          \<and> applied c CURLOPT_URL = None"
    using g pg by simp
  ultimately show ?thesis using acc by blast
qed

subsection \<open>Headers\<close>

lemma ADD_headers_loop_append:
  "ADD_headers_loop E (pre @ rest) c =
     (case ADD_headers_loop E pre c of
        (Inl e, c') \<Rightarrow> (Inl e, c')
      | (Inr u, c1) \<Rightarrow> ADD_headers_loop E rest c1)"
  by (induction pre arbitrary: c) (simp_all add: Let_def)

lemma ADD_headers_loop_keeps:
  "handle (snd (ADD_headers_loop E hs c)) = handle c
   \<and> options (snd (ADD_headers_loop E hs c)) = options c"
  by (induction hs arbitrary: c) (simp_all add: Let_def)

lemma curl_slist_append_data:
  "curl_slist_append E hp l s = (hp', l') \<Longrightarrow> l' \<noteq> None \<Longrightarrow>
     slist_data hp' l' = slist_data hp l @ [s] \<and> (l \<noteq> None \<longrightarrow> l' = l)"
  by (auto simp: curl_slist_append_def slist_data_def split: option.splits)

lemma ADD_headers_loop_data:
  "ADD_headers_loop E hs c = (Inr u, c') \<Longrightarrow>
     slist_data (slists c') (header c')
       = slist_data (slists c) (header c) @ map (\<lambda>h. c_str (header_line h)) hs
     \<and> (header c \<noteq> None \<longrightarrow> header c' = header c)
     \<and> (hs \<noteq> [] \<longrightarrow> header c' \<noteq> None)"
proof (induction hs arbitrary: c)
  case Nil
  then show ?case by simp
next
  case (Cons h hs)
  let ?r = "curl_slist_append E (slists c) (header c) (c_str (header_line h))"
  let ?c = "c\<lparr>header := snd ?r, slists := fst ?r\<rparr>"
  from Cons.prems have ne: "snd ?r \<noteq> None" and rest: "ADD_headers_loop E hs ?c = (Inr u, c')"
    by (auto simp: Let_def split: if_splits)
  from curl_slist_append_data [of E "slists c" "header c" "c_str (header_line h)" "fst ?r" "snd ?r"] ne
  have d: "slist_data (fst ?r) (snd ?r) = slist_data (slists c) (header c) @ [c_str (header_line h)]"
    and k: "header c \<noteq> None \<longrightarrow> snd ?r = header c"
    by simp_all
  from Cons.IH [OF rest] d k ne show ?case by auto
qed


lemma split_at_first:
  "x \<notin> set a \<Longrightarrow> takeWhile (\<lambda>c. c \<noteq> x) (a @ x # r) = a
     \<and> dropWhile (\<lambda>c. c \<noteq> x) (a @ x # r) = x # r"
  by (induction a) auto

lemma header_list_to_map_lines:
  "\<forall>h \<in> set hs. CHR '':'' \<notin> set (fst h) \<Longrightarrow>
     header_list_to_map_loop (map header_line hs) res
       = Some (res @ map (\<lambda>h. (fst h, CHR '' '' # snd h)) hs)"
  by (induction hs arbitrary: res)
     (auto simp: header_line_def split_at_first)

lemma one_header_connection_eq:
  "one_header_connection =
     \<lparr>header = Some 7,
      handle = Some \<lparr>hid = 1, hopts = [CURLOPT_NOSIGNAL \<mapsto> PLong 1,
                                         CURLOPT_HTTPHEADER \<mapsto> PPtr (Some 7)]\<rparr>,
      options = [CURLOPT_NOSIGNAL \<mapsto> ''1'', CURLOPT_HTTPHEADER \<mapsto> ''7''],
      slists = [7 \<mapsto> [''A: 1'']]\<rparr>"
  by (simp add: one_header_connection_def fresh_connection_eq ADD_headers_def Let_def
        curl_slist_append_def accepting_engine_def header_line_def c_str_def and_then_def
        set_option'_def curl_easy_setopt_def to_str_def to_string_small)

lemma two_headers_connection_eq:
  "two_headers_connection =
     \<lparr>header = Some 7,
      handle = Some \<lparr>hid = 1, hopts = [CURLOPT_NOSIGNAL \<mapsto> PLong 1,
                                         CURLOPT_HTTPHEADER \<mapsto> PPtr (Some 7)]\<rparr>,
      options = [CURLOPT_NOSIGNAL \<mapsto> ''1'', CURLOPT_HTTPHEADER \<mapsto> ''7''],
      slists = [7 \<mapsto> [''A: 1'', ''B: 2'']]\<rparr>"
  by (simp add: two_headers_connection_def fresh_connection_eq ADD_headers_def Let_def
        curl_slist_append_def accepting_engine_def header_line_def c_str_def and_then_def
        set_option'_def curl_easy_setopt_def to_str_def to_string_small slist_data_def)

text \<open>
  Claim C6 at its own example. \<open>ADD_headers([(A,1),(B,2)])\<close> on a fresh connection returns
  normally and leaves the native list \<open>["A: 1", "B: 2"]\<close>, one entry per pair in input
  order; \<open>header_list_to_map\<close> on that list, which is what \<open>operator<<\<close> prints, gives
  the names in order but each value with the blank that follows the colon: (A," 1"),
  (B," 2"), not the pairs that went in.
\<close>

theorem header_round_trip_keeps_blank:
  "fst (ADD_headers accepting_engine [(''A'', ''1''), (''B'', ''2'')] fresh_connection) = Inr ()
   \<and> slist_data (slists two_headers_connection) (header two_headers_connection)
       = [''A: 1'', ''B: 2'']
   \<and> rendered_headers two_headers_connection = Some [(''A'', '' 1''), (''B'', '' 2'')]
   \<and> rendered_headers two_headers_connection \<noteq> Some [(''A'', ''1''), (''B'', ''2'')]"
proof -
  have r: "fst (ADD_headers accepting_engine [(''A'', ''1''), (''B'', ''2'')] fresh_connection)
             = Inr ()"
    by (simp add: fresh_connection_eq ADD_headers_def Let_def
        curl_slist_append_def accepting_engine_def header_line_def c_str_def and_then_def
        set_option'_def curl_easy_setopt_def slist_data_def)
  have d: "slist_data (slists two_headers_connection) (header two_headers_connection)
             = [''A: 1'', ''B: 2'']"
    by (simp add: two_headers_connection_eq slist_data_def)
  have "header_list_to_map [''A: 1'', ''B: 2''] = Some [(''A'', '' 1''), (''B'', '' 2'')]"
    by (simp add: header_list_to_map_def)
  with d have m: "rendered_headers two_headers_connection
                    = Some [(''A'', '' 1''), (''B'', '' 2'')]"
    by (simp add: rendered_headers_def) (simp add: two_headers_connection_eq)
  from r d m show ?thesis by simp
qed

text \<open>
  Claim C8. Let the appends for the pairs \<open>pre\<close> of one call succeed and the allocation
  for the next pair \<open>h\<close> fail. Then \<open>ADD_headers\<close> throws \<open>CurlOptionException\<close> (it
  names \<open>CURLOPT_HEADER\<close> and the entry of \<open>h\<close>); afterwards the header pointer of the
  connection is null, handle and registry are what they were before the call (the header
  option was not applied again), and the entries appended for \<open>pre\<close> are still in the
  store behind the old pointer, not freed. The concrete run: after a successful
  \<open>ADD_headers([(A,1)])\<close>, a call with (B,2),(C,3) that fails on the second pair leaves the
  pointer null, the registry entry "7", and the handle pointing to a list that now reads
  \<open>["A: 1", "B: 2"]\<close>.
\<close>

theorem ADD_headers_failure_not_atomic:
  "(handle c \<noteq> None \<and> ADD_headers_loop E pre c = (Inr (), c1)
      \<and> slist_alloc E (slists c1) (c_str (header_line h)) = None \<longrightarrow>
        fst (ADD_headers E (pre @ h # post) c)
          = Inl (CurlOptionException CURLOPT_HEADER (header_line h))
      \<and> header (snd (ADD_headers E (pre @ h # post) c)) = None
      \<and> handle (snd (ADD_headers E (pre @ h # post) c)) = handle c
      \<and> options (snd (ADD_headers E (pre @ h # post) c)) = options c
      \<and> slists (snd (ADD_headers E (pre @ h # post) c)) = slists c1
      \<and> slist_data (slists c1) (header c1)
          = slist_data (slists c) (header c) @ map (\<lambda>h. c_str (header_line h)) pre)
   \<and> fst (ADD_headers (failing_on ''C: 3'') [(''B'', ''2''), (''C'', ''3'')] one_header_connection)
       = Inl (CurlOptionException CURLOPT_HEADER ''C: 3'')
   \<and> header (snd (ADD_headers (failing_on ''C: 3'') [(''B'', ''2''), (''C'', ''3'')]
                      one_header_connection)) = None
   \<and> options (snd (ADD_headers (failing_on ''C: 3'') [(''B'', ''2''), (''C'', ''3'')]
                      one_header_connection)) CURLOPT_HTTPHEADER = Some ''7''
   \<and> applied (snd (ADD_headers (failing_on ''C: 3'') [(''B'', ''2''), (''C'', ''3'')]
                      one_header_connection)) CURLOPT_HTTPHEADER = Some (PPtr (Some 7))
   \<and> slists (snd (ADD_headers (failing_on ''C: 3'') [(''B'', ''2''), (''C'', ''3'')]
                      one_header_connection)) 7 = Some [''A: 1'', ''B: 2'']"
proof -
  have gen: "fst (ADD_headers E (pre @ h # post) c)
          = Inl (CurlOptionException CURLOPT_HEADER (header_line h))
      \<and> header (snd (ADD_headers E (pre @ h # post) c)) = None
      \<and> handle (snd (ADD_headers E (pre @ h # post) c)) = handle c
      \<and> options (snd (ADD_headers E (pre @ h # post) c)) = options c
      \<and> slists (snd (ADD_headers E (pre @ h # post) c)) = slists c1
      \<and> slist_data (slists c1) (header c1)
          = slist_data (slists c) (header c) @ map (\<lambda>h. c_str (header_line h)) pre"
    if op: "handle c \<noteq> None" and pre: "ADD_headers_loop E pre c = (Inr (), c1)"
      and fail: "slist_alloc E (slists c1) (c_str (header_line h)) = None"
  proof -
    from fail have "ADD_headers_loop E (h # post) c1
        = (Inl (CurlOptionException CURLOPT_HEADER (header_line h)), c1\<lparr>header := None\<rparr>)"
      by (simp add: Let_def curl_slist_append_def)
    with pre have "ADD_headers_loop E (pre @ h # post) c
        = (Inl (CurlOptionException CURLOPT_HEADER (header_line h)), c1\<lparr>header := None\<rparr>)"
      by (simp add: ADD_headers_loop_append)
    with op have all: "ADD_headers E (pre @ h # post) c
        = (Inl (CurlOptionException CURLOPT_HEADER (header_line h)), c1\<lparr>header := None\<rparr>)"
      by (simp add: ADD_headers_def and_then_def)
    from ADD_headers_loop_keeps [of E pre c] pre
    have keep: "handle c1 = handle c" "options c1 = options c" by simp_all
    from ADD_headers_loop_data [OF pre]
    have "slist_data (slists c1) (header c1)
          = slist_data (slists c) (header c) @ map (\<lambda>h. c_str (header_line h)) pre"
      by simp
    with all keep show ?thesis by simp
  qed
  have run: "ADD_headers (failing_on ''C: 3'') [(''B'', ''2''), (''C'', ''3'')] one_header_connection
      = (Inl (CurlOptionException CURLOPT_HEADER ''C: 3''),
         one_header_connection\<lparr>header := None, slists := [7 \<mapsto> [''A: 1'', ''B: 2'']]\<rparr>)"
    by (simp add: one_header_connection_eq ADD_headers_def Let_def
        curl_slist_append_def failing_on_def header_line_def c_str_def and_then_def
        slist_data_def)
  have conc: "fst (ADD_headers (failing_on ''C: 3'') [(''B'', ''2''), (''C'', ''3'')] one_header_connection)
       = Inl (CurlOptionException CURLOPT_HEADER ''C: 3'')
   \<and> header (snd (ADD_headers (failing_on ''C: 3'') [(''B'', ''2''), (''C'', ''3'')]
                      one_header_connection)) = None
   \<and> options (snd (ADD_headers (failing_on ''C: 3'') [(''B'', ''2''), (''C'', ''3'')]
                      one_header_connection)) CURLOPT_HTTPHEADER = Some ''7''
   \<and> applied (snd (ADD_headers (failing_on ''C: 3'') [(''B'', ''2''), (''C'', ''3'')]
                      one_header_connection)) CURLOPT_HTTPHEADER = Some (PPtr (Some 7))
   \<and> slists (snd (ADD_headers (failing_on ''C: 3'') [(''B'', ''2''), (''C'', ''3'')]
                      one_header_connection)) 7 = Some [''A: 1'', ''B: 2'']"
    unfolding run by (simp add: one_header_connection_eq applied_def)
  from gen conc show ?thesis by blast
qed

theorem ADD_headers_failure_not_atomic_witness:
  "handle one_header_connection \<noteq> None
   \<and> ADD_headers_loop (failing_on ''C: 3'') [(''B'', ''2'')] one_header_connection
       = (Inr (), one_header_connection\<lparr>slists := [7 \<mapsto> [''A: 1'', ''B: 2'']]\<rparr>)
   \<and> slist_alloc (failing_on ''C: 3'') [7 \<mapsto> [''A: 1'', ''B: 2'']] (c_str (header_line (''C'', ''3'')))
       = None
   \<and> fst (ADD_headers (failing_on ''C: 3'') ([(''B'', ''2'')] @ (''C'', ''3'') # [(''D'', ''4'')])
            one_header_connection)
       = Inl (CurlOptionException CURLOPT_HEADER ''C: 3'')
   \<and> header (snd (ADD_headers (failing_on ''C: 3'') ([(''B'', ''2'')] @ (''C'', ''3'') # [(''D'', ''4'')])
            one_header_connection)) = None
   \<and> options (snd (ADD_headers (failing_on ''C: 3'') ([(''B'', ''2'')] @ (''C'', ''3'') # [(''D'', ''4'')])
            one_header_connection)) = options one_header_connection"
proof -
  have op: "handle one_header_connection \<noteq> None"
    by (simp add: one_header_connection_eq)
  have pre: "ADD_headers_loop (failing_on ''C: 3'') [(''B'', ''2'')] one_header_connection
       = (Inr (), one_header_connection\<lparr>slists := [7 \<mapsto> [''A: 1'', ''B: 2'']]\<rparr>)"
    by (simp add: one_header_connection_eq Let_def curl_slist_append_def failing_on_def
          header_line_def c_str_def slist_data_def)
  have fail: "slist_alloc (failing_on ''C: 3'') [7 \<mapsto> [''A: 1'', ''B: 2'']]
                (c_str (header_line (''C'', ''3''))) = None"
    by (simp add: failing_on_def header_line_def c_str_def)
  have hl: "header_line (''C'', ''3'') = ''C: 3''" by (simp add: header_line_def)
  from ADD_headers_failure_not_atomic
         [where c = one_header_connection and E = "failing_on ''C: 3''"
            and pre = "[(''B'', ''2'')]" and h = "(''C'', ''3'')" and post = "[(''D'', ''4'')]"
            and ?c1.0 = "one_header_connection\<lparr>slists := [7 \<mapsto> [''A: 1'', ''B: 2'']]\<rparr>"]
       op pre fail
  have "fst (ADD_headers (failing_on ''C: 3'') ([(''B'', ''2'')] @ (''C'', ''3'') # [(''D'', ''4'')])
            one_header_connection)
       = Inl (CurlOptionException CURLOPT_HEADER (header_line (''C'', ''3'')))"
    and "header (snd (ADD_headers (failing_on ''C: 3'') ([(''B'', ''2'')] @ (''C'', ''3'') # [(''D'', ''4'')])
            one_header_connection)) = None"
    and "options (snd (ADD_headers (failing_on ''C: 3'') ([(''B'', ''2'')] @ (''C'', ''3'') # [(''D'', ''4'')])
            one_header_connection)) = options one_header_connection"
    by simp_all
  with op pre fail hl show ?thesis by simp
qed

subsection \<open>Resetting\<close>

lemma RESET_options_open:
  "handle c = Some h \<Longrightarrow>
     RESET_options c =
       \<lparr>header = None, handle = Some \<lparr>hid = hid h, hopts = Map.empty\<rparr>,
        options = Map.empty, slists = curl_slist_free_all (slists c) (header c)\<rparr>"
  by (simp add: RESET_options_def RESET_headers_def curl_easy_reset_def Let_def)

lemma CurlConnection_after_reset:
  "handle c = Some h \<Longrightarrow>
     CurlConnection E (Some (hid h)) (slists (RESET_options c))
       = set_option' E CURLOPT_NOSIGNAL (PLong 1) (RESET_options c)"
  by (simp add: RESET_options_open CurlConnection_def)

lemma CurlConnection_new:
  "CurlConnection E ha hp = (Inr (), n) \<Longrightarrow>
     \<exists>a. ha = Some a \<and> header n = None
         \<and> handle n = Some \<lparr>hid = a, hopts = [CURLOPT_NOSIGNAL \<mapsto> PLong 1]\<rparr>"
  by (auto simp: CurlConnection_def set_option_Inr_iff)

text \<open>
  Claim C4, as amended. After \<open>RESET_options\<close> on an open connection the registry is empty,
  the header list is freed and its pointer null, the handle is still open with the same
  identity, and every option other than the baseline no-signal option has the state it has
  on a connection newly constructed by \<open>CurlConnection()\<close> on that handle, which is
  unset.
\<close>

theorem RESET_options_like_new_except_nosignal:
  "handle c = Some h \<longrightarrow>
     options (RESET_options c) = Map.empty
   \<and> header (RESET_options c) = None
   \<and> slists (RESET_options c) = curl_slist_free_all (slists c) (header c)
   \<and> (\<exists>h'. handle (RESET_options c) = Some h' \<and> hid h' = hid h)
   \<and> (CurlConnection E (Some (hid h)) hp = (Inr (), n) \<and> k \<noteq> CURLOPT_NOSIGNAL \<longrightarrow>
         applied (RESET_options c) k = applied n k \<and> applied n k = None
       \<and> header n = header (RESET_options c)
       \<and> (\<exists>hn. handle n = Some hn \<and> hid hn = hid h))"
proof -
  have new: "applied (RESET_options c) k = applied n k \<and> applied n k = None
       \<and> header n = header (RESET_options c)
       \<and> (\<exists>hn. handle n = Some hn \<and> hid hn = hid h)"
    if h: "handle c = Some h" and n: "CurlConnection E (Some (hid h)) hp = (Inr (), n)"
      and k: "k \<noteq> CURLOPT_NOSIGNAL"
  proof -
    from CurlConnection_new [OF n]
    have "header n = None"
      and "handle n = Some \<lparr>hid = hid h, hopts = [CURLOPT_NOSIGNAL \<mapsto> PLong 1]\<rparr>"
      by auto
    with k show ?thesis
      by (simp add: RESET_options_open [OF h] applied_def)
  qed
  have "options (RESET_options c) = Map.empty \<and> header (RESET_options c) = None
   \<and> slists (RESET_options c) = curl_slist_free_all (slists c) (header c)
   \<and> (\<exists>h'. handle (RESET_options c) = Some h' \<and> hid h' = hid h)"
    if h: "handle c = Some h"
    by (simp add: RESET_options_open [OF h])
  with new show ?thesis by blast
qed

theorem RESET_options_like_new_except_nosignal_witness:
  "handle two_headers_connection
     = Some \<lparr>hid = 1, hopts = [CURLOPT_NOSIGNAL \<mapsto> PLong 1,
                                CURLOPT_HTTPHEADER \<mapsto> PPtr (Some 7)]\<rparr>
   \<and> CurlConnection accepting_engine (Some 1) Map.empty = (Inr (), fresh_connection)
   \<and> CURLOPT_HTTPHEADER \<noteq> CURLOPT_NOSIGNAL
   \<and> options (RESET_options two_headers_connection) = Map.empty
   \<and> header (RESET_options two_headers_connection) = None
   \<and> applied (RESET_options two_headers_connection) CURLOPT_HTTPHEADER
       = applied fresh_connection CURLOPT_HTTPHEADER"
proof -
  have h: "handle two_headers_connection
     = Some \<lparr>hid = 1, hopts = [CURLOPT_NOSIGNAL \<mapsto> PLong 1,
                                CURLOPT_HTTPHEADER \<mapsto> PPtr (Some 7)]\<rparr>"
    by (simp add: two_headers_connection_eq)
  have n: "CurlConnection accepting_engine (Some 1) Map.empty = (Inr (), fresh_connection)"
    by (simp add: fresh_connection_def CurlConnection_def set_option'_def
          curl_easy_setopt_def accepting_engine_def)
  have k: "CURLOPT_HTTPHEADER \<noteq> CURLOPT_NOSIGNAL" by simp
  from RESET_options_like_new_except_nosignal
         [where c = two_headers_connection and E = accepting_engine and hp = Map.empty
            and n = fresh_connection and k = CURLOPT_HTTPHEADER]
       h n k
  have "options (RESET_options two_headers_connection) = Map.empty"
    and "header (RESET_options two_headers_connection) = None"
    and "applied (RESET_options two_headers_connection) CURLOPT_HTTPHEADER
       = applied fresh_connection CURLOPT_HTTPHEADER"
    by simp_all
  with h n k show ?thesis by simp
qed

text \<open>
  Counterexample to C4 as it is stated: on the connection that the default constructor has
  just built, no-signal is applied with value 1 and registered, and after
  \<open>RESET_options\<close> the same open handle has it unset.
\<close>

theorem RESET_options_counterexample:
  "CurlConnection accepting_engine (Some 1) Map.empty = (Inr (), fresh_connection)
   \<and> applied fresh_connection CURLOPT_NOSIGNAL = Some (PLong 1)
   \<and> options fresh_connection CURLOPT_NOSIGNAL = Some ''1''
   \<and> handle (RESET_options fresh_connection) = Some \<lparr>hid = 1, hopts = Map.empty\<rparr>
   \<and> applied (RESET_options fresh_connection) CURLOPT_NOSIGNAL = None
   \<and> applied (RESET_options fresh_connection) CURLOPT_NOSIGNAL
       \<noteq> applied fresh_connection CURLOPT_NOSIGNAL"
proof -
  have "CurlConnection accepting_engine (Some 1) Map.empty = (Inr (), fresh_connection)"
    by (simp add: fresh_connection_def CurlConnection_def set_option'_def
          curl_easy_setopt_def accepting_engine_def)
  moreover have "handle fresh_connection
                   = Some \<lparr>hid = 1, hopts = [CURLOPT_NOSIGNAL \<mapsto> PLong 1]\<rparr>"
    by (simp add: fresh_connection_eq)
  ultimately show ?thesis
    by (simp add: RESET_options_open applied_def) (simp add: fresh_connection_eq)
qed

subsection \<open>The registry after a sequence of calls\<close>

lemma setopt_open:
  "handle c = Some h \<Longrightarrow>
     set_option' E opt p c =
       (if setopt_ok E h opt p
        then (Inr (), c\<lparr>handle := Some (h\<lparr>hopts := (hopts h)(opt \<mapsto> p)\<rparr>),
                        options := (options c)(opt \<mapsto> to_str p)\<rparr>)
        else (Inl (CurlOptionException opt (to_str p)), c))"
  by (simp add: set_option'_def curl_easy_setopt_def)

lemma setopt_applied_registry:
  assumes "handle c \<noteq> None" and "settings_applied (set_option' E opt p c)"
  shows "options (snd (set_option' E opt p c)) = registry_after (options c) [(opt, to_str p)]
         \<and> handle (snd (set_option' E opt p c)) \<noteq> None
         \<and> fst (set_option' E opt p c) = Inr ()"
  using assms
  by (auto simp: setopt_open settings_applied_def registry_after_def split: if_splits)

lemma registry_after_append:
  "registry_after (registry_after m ws) vs = registry_after m (ws @ vs)"
  by (simp add: registry_after_def)

lemma to_string_int_small: "to_string_int 1 = ''1''" "to_string_int 2 = ''2''"
  by (simp_all add: to_string_int_def to_string_small)

lemma ADD_headers_loop_error:
  "ADD_headers_loop E hs c = (Inl e, c') \<Longrightarrow>
     \<exists>s. e = CurlOptionException CURLOPT_HEADER s"
  by (induction hs arbitrary: c) (auto simp: Let_def split: if_splits)

lemma run_op_registry:
  assumes op: "handle c \<noteq> None" and ok: "settings_applied (run_op E op c)"
  shows "options (snd (run_op E op c)) = registry_after (options c) (op_writes E op c)
         \<and> handle (snd (run_op E op c)) \<noteq> None"
proof -
  from op obtain h where h: "handle c = Some h" by auto
  show ?thesis
  proof (cases op)
    case (Op_SET_url url)
    with h ok show ?thesis
      by (auto simp: SET_url_def setopt_open settings_applied_def registry_after_def to_str_def
               split: if_splits)
  next
    case Op_SET_ssl_verify
    with h ok show ?thesis
      by (auto simp: SET_ssl_verify_def setopt_open and_then_def settings_applied_def
                     registry_after_def to_str_long split: if_splits)
  next
    case (Op_SET_ssl_verify_using_ca_bundle path)
    with h ok show ?thesis
      by (auto simp: SET_ssl_verify_using_ca_bundle_def SET_ssl_verify_def setopt_open
                     and_then_def settings_applied_def registry_after_def to_str_def to_string_int_small
               split: if_splits)
  next
    case (Op_SET_ssl_verify_using_ca_certs dir)
    with h ok show ?thesis
      by (auto simp: SET_ssl_verify_using_ca_certs_def SET_ssl_verify_def setopt_open
                     and_then_def settings_applied_def registry_after_def to_str_def to_string_int_small
               split: if_splits)
  next
    case (Op_SET_encoding enc)
    with h ok show ?thesis
      by (auto simp: SET_encoding_def setopt_open settings_applied_def registry_after_def
                     to_str_def split: if_splits)
  next
    case Op_SET_keepalive
    with h ok show ?thesis
      by (auto simp: SET_keepalive_def setopt_open settings_applied_def registry_after_def
                     to_str_long split: if_splits)
  next
    case (Op_ADD_headers hs)
    show ?thesis
    proof (cases "hs = []")
      case True
      with Op_ADD_headers h show ?thesis
        by (simp add: ADD_headers_def registry_after_def)
    next
      case False
      obtain r c1 where l: "ADD_headers_loop E hs c = (r, c1)" by (cases "ADD_headers_loop E hs c")
      from ADD_headers_loop_keeps [of E hs c] l h
      have k: "handle c1 = Some h" "options c1 = options c" by simp_all
      have "r = Inr ()"
      proof (cases r)
        case (Inl e)
        with l have "\<exists>s. e = CurlOptionException CURLOPT_HEADER s"
          by (auto dest: ADD_headers_loop_error)
        with Inl ok Op_ADD_headers False h l show ?thesis
          by (auto simp: ADD_headers_def and_then_def settings_applied_def)
      next
        case (Inr u)
        then show ?thesis by simp
      qed
      with Op_ADD_headers False h ok l k show ?thesis
        by (auto simp: ADD_headers_def and_then_def setopt_open settings_applied_def
                       registry_after_def split: if_splits)
    qed
  next
    case (Op_SET_fields flds)
    with h ok show ?thesis
      by (auto simp: SET_fields_def is_closed_def setopt_open settings_applied_def
                     registry_after_def to_str_def SET_fields_buffer_join split: if_splits)
  next
    case (Op_execute x)
    with h ok show ?thesis
      by (auto simp: execute_def discard_def setopt_open and_then_def settings_applied_def
                     registry_after_def to_str_def Let_def split: if_splits)
  qed
qed


lemma run_ops_registry:
  "handle c \<noteq> None \<Longrightarrow> all_applied E ops c \<Longrightarrow>
     options (run_ops E ops c) = registry_after (options c) (seq_writes E ops c)
     \<and> handle (run_ops E ops c) \<noteq> None"
proof (induction ops arbitrary: c)
  case Nil
  then show ?case by (simp add: registry_after_def)
next
  case (Cons op ops)
  from Cons.prems have a: "settings_applied (run_op E op c)"
    and r: "all_applied E ops (snd (run_op E op c))" by simp_all
  from run_op_registry [OF Cons.prems(1) a]
  have 1: "options (snd (run_op E op c)) = registry_after (options c) (op_writes E op c)"
    and 2: "handle (snd (run_op E op c)) \<noteq> None" by simp_all
  from Cons.IH [OF 2 r] 1 show ?case
    by (simp add: registry_after_append)
qed

lemma run_op_failed_entry:
  assumes "run_op E op c = (Inl (CurlOptionException k v), c')"
  shows "options c' k = options c k"
proof (cases "handle c")
  case None
  with assms show ?thesis
    by (cases op) (auto simp: closed_simps discard_def)
next
  case (Some h)
  show ?thesis
  proof (cases op)
    case (Op_ADD_headers hs)
    obtain r c1 where l: "ADD_headers_loop E hs c = (r, c1)" by (cases "ADD_headers_loop E hs c")
    from ADD_headers_loop_keeps [of E hs c] l Some
    have k: "handle c1 = Some h" "options c1 = options c" by simp_all
    from assms Op_ADD_headers Some l k show ?thesis
      by (cases r) (auto simp: ADD_headers_def and_then_def setopt_open split: if_splits)
  next
    case (Op_execute x)
    with assms Some show ?thesis
      by (auto simp: execute_def discard_def setopt_open and_then_def Let_def split: if_splits)
  qed (use assms Some in \<open>auto simp: SET_url_def SET_ssl_verify_def
         SET_ssl_verify_using_ca_bundle_def SET_ssl_verify_using_ca_certs_def SET_encoding_def
         SET_keepalive_def SET_fields_def is_closed_def setopt_open and_then_def
         split: if_splits\<close>)
qed

lemma setopt_mirrors: "mirrors c \<Longrightarrow> mirrors (snd (set_option' E opt p c))"
  by (auto simp: mirrors_def applied_def set_option'_def curl_easy_setopt_def
           split: option.splits)

lemma and_then_mirrors:
  "mirrors (snd r) \<Longrightarrow> (\<And>c. mirrors c \<Longrightarrow> mirrors (snd (f c))) \<Longrightarrow>
     mirrors (snd (and_then r f))"
  by (cases r; cases "fst r") (auto simp: and_then_def)

lemma ADD_headers_loop_mirrors:
  "mirrors c \<Longrightarrow> mirrors (snd (ADD_headers_loop E hs c))"
  using ADD_headers_loop_keeps [of E hs c] by (simp add: mirrors_def applied_def)

lemma run_op_mirrors: "mirrors c \<Longrightarrow> mirrors (snd (run_op E op c))"
proof (cases op)
  case (Op_execute x)
  assume m: "mirrors c"
  have "mirrors (snd (execute E x c))"
    unfolding execute_def using m
    by (auto intro!: and_then_mirrors setopt_mirrors simp: Let_def)
  with Op_execute show ?thesis
    by (cases "execute E x c"; cases "fst (execute E x c)") (auto simp: discard_def)
qed (auto simp: SET_url_def SET_ssl_verify_def SET_ssl_verify_using_ca_bundle_def
       SET_ssl_verify_using_ca_certs_def SET_encoding_def SET_keepalive_def SET_fields_def
       ADD_headers_def intro!: and_then_mirrors setopt_mirrors ADD_headers_loop_mirrors)

lemma run_ops_mirrors: "mirrors c \<Longrightarrow> mirrors (run_ops E ops c)"
  by (induction ops arbitrary: c) (simp_all add: run_op_mirrors)


text \<open>
  Claim C1. On an open connection, after any sequence of the listed calls that all set
  their options successfully, the registry is the registry before overwritten, in call
  order, by the (identifier, string value) pairs the calls set: an identifier that was set
  holds the value of the most recent call, every other entry is as before, and the keys
  are the former keys together with the identifiers set. When a call throws
  \<open>CurlOptionException\<close> for an identifier, the entry for that identifier, or its absence,
  is what it was before the call. Moreover a registry that holds the string forms of the
  options applied to the handle still does so after any sequence of these calls, whatever
  they returned or threw.
\<close>

theorem registry_mirrors_applied_options:
  "(handle c \<noteq> None \<and> all_applied E ops c \<longrightarrow>
      options (run_ops E ops c) = registry_after (options c) (seq_writes E ops c)
    \<and> (\<forall>k. options (run_ops E ops c) k
           = (case map_of (rev (seq_writes E ops c)) k of
                Some v \<Rightarrow> Some v | None \<Rightarrow> options c k))
    \<and> dom (options (run_ops E ops c)) = dom (options c) \<union> fst ` set (seq_writes E ops c))
   \<and> (run_op E op c = (Inl (CurlOptionException k v), c') \<longrightarrow> options c' k = options c k)
   \<and> (mirrors c \<longrightarrow> mirrors (run_ops E ops c))"
proof -
  have seq: "options (run_ops E ops c) = registry_after (options c) (seq_writes E ops c)
    \<and> (\<forall>k. options (run_ops E ops c) k
           = (case map_of (rev (seq_writes E ops c)) k of
                Some v \<Rightarrow> Some v | None \<Rightarrow> options c k))
    \<and> dom (options (run_ops E ops c)) = dom (options c) \<union> fst ` set (seq_writes E ops c)"
    if "handle c \<noteq> None" and "all_applied E ops c"
  proof -
    from run_ops_registry [OF that]
    have r: "options (run_ops E ops c) = registry_after (options c) (seq_writes E ops c)"
      by simp
    have p: "options (run_ops E ops c) k
           = (case map_of (rev (seq_writes E ops c)) k of
                Some v \<Rightarrow> Some v | None \<Rightarrow> options c k)" for k
      unfolding r by (simp add: registry_after_def map_add_def split: option.splits)
    have d: "dom (options (run_ops E ops c))
               = dom (options c) \<union> fst ` set (seq_writes E ops c)"
      unfolding r by (auto simp: registry_after_def dom_map_of_conv_image_fst)
    from r p d show ?thesis by blast
  qed
  from seq run_op_failed_entry [of E op c k v c'] run_ops_mirrors [of c E ops]
  show ?thesis by blast
qed

theorem registry_mirrors_applied_options_witness:
  "handle fresh_connection \<noteq> None
   \<and> all_applied accepting_engine example_ops fresh_connection
   \<and> seq_writes accepting_engine example_ops fresh_connection
       = [(CURLOPT_URL, ''https://example.test/a''), (CURLOPT_SSL_VERIFYPEER, ''1''),
          (CURLOPT_SSL_VERIFYHOST, ''2''), (CURLOPT_HTTPHEADER, ''7''),
          (CURLOPT_URL, ''https://example.test/b'')]
   \<and> options (run_ops accepting_engine example_ops fresh_connection) CURLOPT_URL
       = Some ''https://example.test/b''
   \<and> options (run_ops accepting_engine example_ops fresh_connection) CURLOPT_NOSIGNAL
       = Some ''1''
   \<and> options (run_ops accepting_engine example_ops fresh_connection) CURLOPT_CAINFO = None
   \<and> run_op (rejecting CURLOPT_URL) (Op_SET_url ''x'') fresh_connection
       = (Inl (CurlOptionException CURLOPT_URL ''x''), fresh_connection)
   \<and> mirrors fresh_connection
   \<and> mirrors (run_ops accepting_engine example_ops fresh_connection)"
proof -
  have op: "handle fresh_connection \<noteq> None" by (simp add: fresh_connection_eq)
  have ok: "setopt_ok accepting_engine h opt p" for h opt p
    by (simp add: accepting_engine_def)
  have al: "slist_alloc accepting_engine hp s = Some 7" for hp s
    by (simp add: accepting_engine_def)
  have all: "all_applied accepting_engine example_ops fresh_connection"
    by (simp add: example_ops_def fresh_connection_eq SET_url_def SET_ssl_verify_def
          ADD_headers_def setopt_open ok al and_then_def settings_applied_def Let_def
          curl_slist_append_def)
  have ws: "seq_writes accepting_engine example_ops fresh_connection
       = [(CURLOPT_URL, ''https://example.test/a''), (CURLOPT_SSL_VERIFYPEER, ''1''),
          (CURLOPT_SSL_VERIFYHOST, ''2''), (CURLOPT_HTTPHEADER, ''7''),
          (CURLOPT_URL, ''https://example.test/b'')]"
    by (simp add: example_ops_def fresh_connection_eq SET_url_def SET_ssl_verify_def
          setopt_open ok al and_then_def Let_def curl_slist_append_def c_str_def to_str_def
          to_string_small)
  have rj: "run_op (rejecting CURLOPT_URL) (Op_SET_url ''x'') fresh_connection
       = (Inl (CurlOptionException CURLOPT_URL ''x''), fresh_connection)"
    by (simp add: fresh_connection_eq SET_url_def setopt_open rejecting_def c_str_def to_str_def)
  have mf: "mirrors fresh_connection"
    by (simp add: mirrors_def fresh_connection_eq applied_def to_str_long)
  from registry_mirrors_applied_options
         [where c = fresh_connection and E = accepting_engine and ops = example_ops] op all mf
  have p: "\<forall>k. options (run_ops accepting_engine example_ops fresh_connection) k
           = (case map_of (rev (seq_writes accepting_engine example_ops fresh_connection)) k of
                Some v \<Rightarrow> Some v | None \<Rightarrow> options fresh_connection k)"
    and m: "mirrors (run_ops accepting_engine example_ops fresh_connection)"
    by blast+
  from registry_mirrors_applied_options
         [where c = fresh_connection and E = "rejecting CURLOPT_URL" and op = "Op_SET_url ''x''"
            and k = CURLOPT_URL and v = "''x''" and c' = fresh_connection] rj
  have "options fresh_connection CURLOPT_URL = options fresh_connection CURLOPT_URL"
    by blast
  from p have
    "options (run_ops accepting_engine example_ops fresh_connection) CURLOPT_URL
       = Some ''https://example.test/b''"
    "options (run_ops accepting_engine example_ops fresh_connection) CURLOPT_NOSIGNAL
       = Some ''1''"
    "options (run_ops accepting_engine example_ops fresh_connection) CURLOPT_CAINFO = None"
    unfolding ws by (simp_all add: fresh_connection_eq)
  with op all ws rj mf m show ?thesis by simp
qed

end
